theory Spec2Isabelle
  imports Complex_Main
begin

section \<open>Tensors, errors and the store\<close>

text \<open>
  The composite builder of \<^verbatim>\<open>data/rendered.py\<close> works on torch tensors. A two-dimensional
  tensor is modelled as a list of rows of reals (floating-point rounding is not modelled:
  the values are heights, the constants \<open>0\<close>, \<open>1/2\<close> and \<open>1\<close>, and sums of them). Tensors that
  the builder owns or returns live in a store, a list of grids indexed by address, since the
  code writes into them in place; a three-dimensional tensor is the list of the addresses
  of its layers, so that the view \<^verbatim>\<open>t[i]\<close> is the address \<open>t ! i\<close>.
\<close>

datatype error = RuntimeError | IndexError | KeyError | ZeroDivisionError | NotImplementedError

type_synonym grid = "real list list"
type_synonym bmask = "bool list list"
type_synonym addr = nat
type_synonym heap = "grid list"

definition tabulate2 :: "nat \<Rightarrow> nat \<Rightarrow> (nat \<Rightarrow> nat \<Rightarrow> 'a) \<Rightarrow> 'a list list" where
  "tabulate2 n m f = map (\<lambda>i. map (\<lambda>j. f i j) [0..<m]) [0..<n]"

definition is_shape :: "nat \<Rightarrow> nat \<Rightarrow> 'a list list \<Rightarrow> bool" where
  "is_shape n m g \<longleftrightarrow> length g = n \<and> list_all (\<lambda>r. length r = m) g"

text \<open>\<^verbatim>\<open>torch.zeros((n, m))\<close>.\<close>
definition zeros :: "nat \<Rightarrow> nat \<Rightarrow> grid" where
  "zeros n m = tabulate2 n m (\<lambda>i j. 0)"

text \<open>\<^verbatim>\<open>a > b\<close> on two \<open>S\<times>S\<close> tensors, and \<^verbatim>\<open>a > 0\<close>.\<close>
definition gt :: "nat \<Rightarrow> grid \<Rightarrow> grid \<Rightarrow> bmask" where
  "gt S a b = tabulate2 S S (\<lambda>i j. b ! i ! j < a ! i ! j)"

definition gt0 :: "nat \<Rightarrow> grid \<Rightarrow> bmask" where
  "gt0 S a = tabulate2 S S (\<lambda>i j. 0 < a ! i ! j)"

text \<open>\<^verbatim>\<open>dst[m] = src[m]\<close>: the cells selected by the mask take the value of the same cell
  of \<open>src\<close>.\<close>
definition masked_copy :: "nat \<Rightarrow> grid \<Rightarrow> bmask \<Rightarrow> grid \<Rightarrow> grid" where
  "masked_copy S dst m src = tabulate2 S S (\<lambda>i j. if m ! i ! j then src ! i ! j else dst ! i ! j)"

text \<open>\<^verbatim>\<open>dst[m] = v\<close> for a scalar \<open>v\<close>.\<close>
definition masked_fill :: "nat \<Rightarrow> grid \<Rightarrow> bmask \<Rightarrow> real \<Rightarrow> grid" where
  "masked_fill S dst m v = tabulate2 S S (\<lambda>i j. if m ! i ! j then v else dst ! i ! j)"

text \<open>\<^verbatim>\<open>a + b\<close> and \<^verbatim>\<open>torch.max(a, b)\<close>, cell by cell.\<close>
definition gadd :: "nat \<Rightarrow> grid \<Rightarrow> grid \<Rightarrow> grid" where
  "gadd S a b = tabulate2 S S (\<lambda>i j. a ! i ! j + b ! i ! j)"

definition gmax :: "nat \<Rightarrow> grid \<Rightarrow> grid \<Rightarrow> grid" where
  "gmax S a b = tabulate2 S S (\<lambda>i j. max (a ! i ! j) (b ! i ! j))"

text \<open>\<^verbatim>\<open>t.sum(0)\<close> of a stack of layers.\<close>
definition gsum :: "nat \<Rightarrow> grid list \<Rightarrow> grid" where
  "gsum S ls = tabulate2 S S (\<lambda>i j. sum_list (map (\<lambda>g. g ! i ! j) ls))"

text \<open>Python indexing of a sequence of length \<open>n\<close>: a negative index counts from the end,
  an index out of range raises \<^verbatim>\<open>IndexError\<close>.\<close>
definition py_index :: "nat \<Rightarrow> int \<Rightarrow> nat option" where
  "py_index n i =
     (if 0 \<le> i \<and> i < int n then Some (nat i)
      else if - int n \<le> i \<and> i < 0 then Some (nat (int n + i))
      else None)"

text \<open>Allocation of one fresh grid, and of a stack of \<open>n\<close> fresh layers
  (\<^verbatim>\<open>torch.zeros((n, S, S))\<close>).\<close>
definition alloc :: "heap \<Rightarrow> grid \<Rightarrow> addr \<times> heap" where
  "alloc h g = (length h, h @ [g])"

definition alloc_n :: "heap \<Rightarrow> nat \<Rightarrow> grid \<Rightarrow> addr list \<times> heap" where
  "alloc_n h n g = ([length h ..< length h + n], h @ replicate n g)"

section \<open>RenderedComposite\<close>

text \<open>The fields of a \<^verbatim>\<open>RenderedComposite\<close> object: \<^verbatim>\<open>size\<close>, \<^verbatim>\<open>categories\<close> and the
  addresses of its tensors.\<close>

record RenderedComposite =
  size_S :: nat
  categories :: "string list"
  room_mask :: addr
  wall_mask :: addr
  height_map :: addr
  cat_map :: "addr list"
  sin_map :: addr
  cos_map :: addr
  door_map :: addr
  window_map :: addr

text \<open>The addresses a builder owns.\<close>
definition addrs :: "RenderedComposite \<Rightarrow> addr list" where
  "addrs self = [room_mask self, wall_mask self, height_map self, sin_map self, cos_map self,
                 door_map self, window_map self] @ cat_map self"

text \<open>A well-formed builder, as \<^verbatim>\<open>__init__\<close> makes it: its tensors are distinct objects of
  the store, every one of shape \<open>S\<times>S\<close>, and \<^verbatim>\<open>cat_map\<close> has one layer per category.\<close>
definition wf :: "heap \<Rightarrow> RenderedComposite \<Rightarrow> bool" where
  "wf h self \<longleftrightarrow>
     distinct (addrs self) \<and>
     list_all (\<lambda>a. a < length h \<and> is_shape (size_S self) (size_S self) (h ! a)) (addrs self) \<and>
     length (cat_map self) = length (categories self)"

text \<open>
  \<^verbatim>\<open>add_height_map(self, to_add, category, sin, cos)\<close>, lines 193-205. A two-dimensional
  \<^verbatim>\<open>to_add\<close> whose shape is not \<open>S\<times>S\<close> makes line 199 or the indexing of line 200 raise
  before anything is written. An out-of-range \<^verbatim>\<open>category\<close> raises \<^verbatim>\<open>IndexError\<close> at
  line 203, after \<^verbatim>\<open>height_map\<close> has been written at line 200.
\<close>
definition add_height_map ::
  "heap \<Rightarrow> RenderedComposite \<Rightarrow> grid \<Rightarrow> int \<Rightarrow> real \<Rightarrow> real \<Rightarrow> (error + unit) \<times> heap" where
  "add_height_map h self to_add category sin_a cos_a =
     (let S = size_S self in
      if \<not> is_shape S S to_add then (Inl RuntimeError, h)
      else
        let update = gt S to_add (h ! height_map self);
            h1 = h[height_map self := masked_copy S (h ! height_map self) update to_add];
            mask = masked_fill S (zeros S S) (gt0 S to_add) (1/2)
        in case py_index (length (cat_map self)) category of
             None \<Rightarrow> (Inl IndexError, h1)
           | Some c \<Rightarrow>
               let h2 = h1[cat_map self ! c := gadd S (h1 ! (cat_map self ! c)) mask];
                   h3 = h2[sin_map self := masked_fill S (h2 ! sin_map self) update ((sin_a + 1) / 2)];
                   h4 = h3[cos_map self := masked_fill S (h3 ! cos_map self) update ((cos_a + 1) / 2)]
               in (Inr (), h4))"

text \<open>
  An object record (a Python dict). The type of \<^verbatim>\<open>node["category"]\<close> is a parameter:
  nothing for a raw record, the string \<^verbatim>\<open>"door"\<close> or \<^verbatim>\<open>"window"\<close>, or the category index
  of a furniture record. Only components 0 and 2 of the bounding-box minimum are read.
  A patch is a list of rows; its number of columns is the length of its first row
  (a patch without rows has no columns).
\<close>
record 'c node =
  n_modelId :: string
  n_height_map :: grid
  n_bbox_min :: "real \<times> real \<times> real"
  n_transform :: "real list"
  n_height_map_obb :: grid
  n_bbox_min_obb :: "real \<times> real \<times> real"
  n_category :: 'c

definition nrows :: "grid \<Rightarrow> nat" where
  "nrows g = length g"

definition ncols :: "grid \<Rightarrow> nat" where
  "ncols g = (case g of [] \<Rightarrow> 0 | r # _ \<Rightarrow> length r)"

text \<open>The number of indices the Python slice \<^verbatim>\<open>[lo : lo + n]\<close> selects in a dimension of
  size \<open>S\<close> (\<open>lo\<close> is never negative here): both bounds are clipped to \<open>S\<close>.\<close>
definition slice_len :: "nat \<Rightarrow> nat \<Rightarrow> nat \<Rightarrow> nat" where
  "slice_len S lo n = min S (lo + n) - min S lo"

text \<open>
  \<^verbatim>\<open>to_add[xmin : xmin + xsize, ymin : ymin + ysize] = h\<close> on an \<open>S\<times>S\<close> tensor. torch copies
  \<open>h\<close> into the (clipped) slice, broadcasting \<open>h\<close> to the shape of the slice: along each axis
  the slice must be as long as \<open>h\<close>, or \<open>h\<close> must have size 1 there; otherwise the
  assignment raises \<^verbatim>\<open>RuntimeError\<close>. A clipped slice is shorter than \<open>h\<close>, so a patch of
  size 1 is broadcast only into an empty slice.
\<close>
definition paste :: "nat \<Rightarrow> grid \<Rightarrow> nat \<Rightarrow> nat \<Rightarrow> nat \<Rightarrow> nat \<Rightarrow> grid \<Rightarrow> error + grid" where
  "paste S to_add xmin xsize ymin ysize h =
     (let sx = slice_len S xmin xsize; sy = slice_len S ymin ysize
      in if (sx = nrows h \<or> nrows h = 1) \<and> (sy = ncols h \<or> ncols h = 1)
         then Inr (tabulate2 S S (\<lambda>i j.
                if xmin \<le> i \<and> i < xmin + sx \<and> ymin \<le> j \<and> j < ymin + sy
                then h ! (i - xmin) ! (j - ymin) else to_add ! i ! j))
         else Inl RuntimeError)"

text \<open>\<^verbatim>\<open>get_transformation(self, transform)\<close>, lines 183-191: \<^verbatim>\<open>transform[0]\<close> and
  \<^verbatim>\<open>transform[8]\<close> raise \<^verbatim>\<open>IndexError\<close> on a list that is too short, and the division
  of Python floats raises \<^verbatim>\<open>ZeroDivisionError\<close> when the scale is zero.\<close>
definition get_transformation :: "real list \<Rightarrow> error + (real \<times> real)" where
  "get_transformation transform =
     (if length transform \<le> 8 then Inl IndexError
      else
        let a = transform ! 0; b = transform ! 8;
            scale = sqrt (a\<^sup>2 + b\<^sup>2)
        in if scale = 0 then Inl ZeroDivisionError else Inr (b / scale, a / scale))"

text \<open>\<^verbatim>\<open>add_node(self, node)\<close>, lines 207-229.\<close>
definition add_node :: "heap \<Rightarrow> RenderedComposite \<Rightarrow> int node \<Rightarrow> (error + unit) \<times> heap" where
  "add_node h self node =
     (let hm = n_height_map node;
          category = n_category node;
          xsize = nrows hm; ysize = ncols hm;
          xmin = \<lfloor>fst (n_bbox_min node)\<rfloor>;
          ymin = \<lfloor>snd (snd (n_bbox_min node))\<rfloor>;
          xmin = (if xmin < 0 then 0 else xmin);
          ymin = (if ymin < 0 then 0 else ymin);
          xmin = (if xsize = 256 then 0 else xmin);
          ymin = (if ysize = 256 then 0 else ymin);
          to_add = zeros (size_S self) (size_S self)
      in case paste (size_S self) to_add (nat xmin) xsize (nat ymin) ysize hm of
           Inl e \<Rightarrow> (Inl e, h)
         | Inr to_add \<Rightarrow>
             (case get_transformation (n_transform node) of
                Inl e \<Rightarrow> (Inl e, h)
              | Inr (sin_a, cos_a) \<Rightarrow> add_height_map h self to_add category sin_a cos_a))"

text \<open>\<^verbatim>\<open>add_nodes(self, nodes)\<close>, lines 231-233: the loop stops at the first exception.\<close>
fun add_nodes :: "heap \<Rightarrow> RenderedComposite \<Rightarrow> int node list \<Rightarrow> (error + unit) \<times> heap" where
  "add_nodes h self [] = (Inr (), h)"
| "add_nodes h self (node # nodes) =
     (case add_node h self node of
        (Inl e, h') \<Rightarrow> (Inl e, h')
      | (Inr _, h') \<Rightarrow> add_nodes h' self nodes)"

text \<open>\<^verbatim>\<open>add_node_obb(self, node)\<close>, lines 236-255.\<close>
definition add_node_obb :: "heap \<Rightarrow> RenderedComposite \<Rightarrow> int node \<Rightarrow> (error + unit) \<times> heap" where
  "add_node_obb h self node =
     (let hm = n_height_map_obb node;
          category = n_category node;
          xsize = nrows hm; ysize = ncols hm;
          xmin = max 0 \<lfloor>fst (n_bbox_min_obb node)\<rfloor>;
          ymin = max 0 \<lfloor>snd (snd (n_bbox_min_obb node))\<rfloor>;
          to_add = zeros (size_S self) (size_S self)
      in case paste (size_S self) to_add (nat xmin) xsize (nat ymin) ysize hm of
           Inl e \<Rightarrow> (Inl e, h)
         | Inr to_add \<Rightarrow>
             (case get_transformation (n_transform node) of
                Inl e \<Rightarrow> (Inl e, h)
              | Inr (sin_a, cos_a) \<Rightarrow> add_height_map h self to_add category sin_a cos_a))"

text \<open>
  \<^verbatim>\<open>get_composite(self, num_extra_channels, ablation)\<close>, lines 298-346. The returned tensor
  is freshly allocated; \<^verbatim>\<open>composite[i] = t\<close> copies the contents of \<open>t\<close> into layer \<open>i\<close>.
\<close>
definition get_composite ::
  "heap \<Rightarrow> RenderedComposite \<Rightarrow> nat \<Rightarrow> string option \<Rightarrow> (error + addr list) \<times> heap" where
  "get_composite h self num_extra_channels ablation =
     (let S = size_S self; C = length (categories self) in
      if ablation = None then
        let (composite, h0) = alloc_n h (C + num_extra_channels + 8) (zeros S S);
            h1 = h0[composite ! 0 := h0 ! room_mask self];
            h2 = h1[composite ! 1 := h1 ! wall_mask self];
            h3 = h2[composite ! 2 := gsum S (map (\<lambda>a. h2 ! a) (cat_map self))];
            h4 = h3[composite ! 3 := h3 ! height_map self];
            h5 = h4[composite ! 4 := h4 ! sin_map self];
            h6 = h5[composite ! 5 := h5 ! cos_map self];
            h7 = h6[composite ! 6 := h6 ! door_map self];
            h8 = h7[composite ! 7 := h7 ! window_map self];
            h9 = fold (\<lambda>i hp. hp[composite ! (i + 8) := hp ! (cat_map self ! i)]) [0..<C] h8
        in (Inr composite, h9)
      else if ablation = Some ''depth'' then
        let (composite, h0) = alloc_n h (1 + num_extra_channels) (zeros S S);
            h1 = h0[composite ! 0 := h0 ! height_map self]
        in (Inr composite, h1)
      else if ablation = Some ''basic'' then
        let (composite, h0) = alloc_n h (6 + num_extra_channels) (zeros S S);
            h1 = h0[composite ! 0 := h0 ! room_mask self];
            h2 = h1[composite ! 1 := h1 ! wall_mask self];
            h3 = h2[composite ! 2 := gsum S (map (\<lambda>a. h2 ! a) (cat_map self))];
            h4 = h3[composite ! 3 := h3 ! height_map self];
            h5 = h4[composite ! 4 := h4 ! sin_map self];
            h6 = h5[composite ! 5 := h5 ! cos_map self]
        in (Inr composite, h6)
      else (Inl NotImplementedError, h))"

text \<open>
  \<^verbatim>\<open>add_and_get_composite(self, to_add, category, sin, cos, num_extra_channels, temporary)\<close>,
  lines 264-296. \<^verbatim>\<open>composite[3]\<close> is a view of the fresh tensor, so the masked writes of
  lines 285, 287 and 289 go to the layers of \<^verbatim>\<open>composite\<close>. A \<^verbatim>\<open>to_add\<close> whose shape is not
  \<open>S\<times>S\<close> raises before the function returns, and the tensor it had allocated is dropped.
  \<^verbatim>\<open>composite[8 + category]\<close> is indexed the Python way.
\<close>
definition add_and_get_composite ::
  "heap \<Rightarrow> RenderedComposite \<Rightarrow> grid \<Rightarrow> int \<Rightarrow> real \<Rightarrow> real \<Rightarrow> nat \<Rightarrow> bool
     \<Rightarrow> (error + addr list) \<times> heap" where
  "add_and_get_composite h self to_add category sin_a cos_a num_extra_channels temporary =
     (let S = size_S self; C = length (categories self) in
      if \<not> temporary then (Inl NotImplementedError, h)
      else if \<not> is_shape S S to_add then (Inl RuntimeError, h)
      else
        let update = gt S to_add (h ! height_map self);
            mask = masked_fill S (zeros S S) (gt0 S to_add) (1/2);
            (composite, h0) = alloc_n h (C + num_extra_channels + 8) (zeros S S);
            h1 = h0[composite ! 0 := h0 ! room_mask self];
            h2 = h1[composite ! 1 := h1 ! wall_mask self];
            h3 = h2[composite ! 2 := gadd S (gsum S (map (\<lambda>a. h2 ! a) (cat_map self))) mask];
            h4 = h3[composite ! 3 := h3 ! height_map self];
            h5 = h4[composite ! 3 := masked_copy S (h4 ! (composite ! 3)) update to_add];
            h6 = h5[composite ! 4 := h5 ! sin_map self];
            h7 = h6[composite ! 4 := masked_fill S (h6 ! (composite ! 4)) update ((sin_a + 1) / 2)];
            h8 = h7[composite ! 5 := h7 ! cos_map self];
            h9 = h8[composite ! 5 := masked_fill S (h8 ! (composite ! 5)) update ((cos_a + 1) / 2)];
            h10 = h9[composite ! 6 := h9 ! door_map self];
            h11 = h10[composite ! 7 := h10 ! window_map self];
            h12 = fold (\<lambda>i hp. hp[composite ! (i + 8) := hp ! (cat_map self ! i)]) [0..<C] h11
        in case py_index (length composite) (8 + category) of
             None \<Rightarrow> (Inl IndexError, h)
           | Some c \<Rightarrow> (Inr composite, h12[composite ! c := gadd S (h12 ! (composite ! c)) mask]))"

text \<open>\<^verbatim>\<open>a != 0\<close>.\<close>
definition ne0 :: "nat \<Rightarrow> grid \<Rightarrow> bmask" where
  "ne0 S a = tabulate2 S S (\<lambda>i j. a ! i ! j \<noteq> 0)"

text \<open>
  The loop over the door and window records of \<^verbatim>\<open>RenderedComposite.__init__\<close>,
  lines 159-181. \<^verbatim>\<open>self.door_map = self.door_map + to_add\<close> binds the field to a new tensor.
\<close>
fun init_door_windows ::
  "heap \<Rightarrow> RenderedComposite \<Rightarrow> string node list \<Rightarrow> (error + RenderedComposite) \<times> heap" where
  "init_door_windows h self [] = (Inr self, h)"
| "init_door_windows h self (node # nodes) =
     (let hm = n_height_map node;
          xsize = nrows hm; ysize = ncols hm;
          xmin = \<lfloor>fst (n_bbox_min node)\<rfloor>;
          ymin = \<lfloor>snd (snd (n_bbox_min node))\<rfloor>;
          xmin = (if xmin < 0 then 0 else xmin);
          ymin = (if ymin < 0 then 0 else ymin);
          xmin = (if xsize = 256 then 0 else xmin);
          ymin = (if ysize = 256 then 0 else ymin);
          S = size_S self
      in case paste S (zeros S S) (nat xmin) xsize (nat ymin) ysize hm of
           Inl e \<Rightarrow> (Inl e, h)
         | Inr to_add \<Rightarrow>
             let update = gt S to_add (h ! height_map self);
                 h1 = h[height_map self := masked_copy S (h ! height_map self) update to_add];
                 h2 = h1[wall_mask self := masked_fill S (h1 ! wall_mask self) (gt0 S to_add) 1];
                 to_add = masked_fill S to_add (gt0 S to_add) (1/2)
             in if n_category node = ''door''
                then init_door_windows (snd (alloc h2 (gadd S (h2 ! door_map self) to_add)))
                       (self\<lparr>door_map := fst (alloc h2 (gadd S (h2 ! door_map self) to_add))\<rparr>) nodes
                else init_door_windows (snd (alloc h2 (gadd S (h2 ! window_map self) to_add)))
                       (self\<lparr>window_map := fst (alloc h2 (gadd S (h2 ! window_map self) to_add))\<rparr>) nodes)"

text \<open>\<^verbatim>\<open>RenderedComposite.__init__(self, categories, floor, wall, door_window_nodes)\<close>,
  lines 137-181, for \<^verbatim>\<open>floor\<close> and \<^verbatim>\<open>wall\<close> of the same square shape. \<^verbatim>\<open>None\<close> for
  \<^verbatim>\<open>door_window_nodes\<close> is the empty list.\<close>
definition RenderedComposite_init ::
  "heap \<Rightarrow> string list \<Rightarrow> grid \<Rightarrow> grid \<Rightarrow> string node list
     \<Rightarrow> (error + RenderedComposite) \<times> heap" where
  "RenderedComposite_init h cats floor_g wall door_window_nodes =
     (let S = nrows floor_g;
          (room_a, h1) = alloc h (masked_fill S (gadd S floor_g wall) (ne0 S (gadd S floor_g wall)) 1);
          (wall_a, h2) = alloc h1 (masked_fill S wall (ne0 S wall) (1/2));
          (height_a, h3) = alloc h2 (gmax S floor_g wall);
          (cat_a, h4) = alloc_n h3 (length cats) (zeros S S);
          (sin_a, h5) = alloc h4 (zeros S S);
          (cos_a, h6) = alloc h5 (zeros S S);
          (door_a, h7) = alloc h6 (zeros S S);
          (window_a, h8) = alloc h7 (zeros S S);
          self = \<lparr> size_S = S, categories = cats, room_mask = room_a, wall_mask = wall_a,
                   height_map = height_a, cat_map = cat_a, sin_map = sin_a, cos_map = cos_a,
                   door_map = door_a, window_map = window_a \<rparr>
      in init_door_windows h8 self door_window_nodes)"

section \<open>RenderedScene\<close>

text \<open>\<^verbatim>\<open>node["category"] = c\<close>.\<close>
definition set_category :: "'a node \<Rightarrow> 'c \<Rightarrow> 'c node" where
  "set_category node c =
     \<lparr> n_modelId = n_modelId node, n_height_map = n_height_map node,
       n_bbox_min = n_bbox_min node, n_transform = n_transform node,
       n_height_map_obb = n_height_map_obb node, n_bbox_min_obb = n_bbox_min_obb node,
       n_category = c \<rparr>"

text \<open>
  The loop of \<^verbatim>\<open>RenderedScene.__init__\<close>, lines 104-113, over the unpickled records.
  \<^verbatim>\<open>get_final_category\<close> (of the external \<^verbatim>\<open>ObjectCategories\<close>) and the dictionary
  \<^verbatim>\<open>cat_to_index\<close> are parameters; a category missing from the dictionary raises
  \<^verbatim>\<open>KeyError\<close>.
\<close>
fun load_nodes ::
  "(string \<Rightarrow> string) \<Rightarrow> (string \<rightharpoonup> int) \<Rightarrow> bool \<Rightarrow> unit node list
     \<Rightarrow> int node list \<Rightarrow> string node list \<Rightarrow> error + (int node list \<times> string node list)" where
  "load_nodes get_final_category cat_to_index load_objects [] object_nodes door_window_nodes =
     Inr (object_nodes, door_window_nodes)"
| "load_nodes get_final_category cat_to_index load_objects (node # nodes) object_nodes door_window_nodes =
     (let category = get_final_category (n_modelId node) in
      if category \<in> set [''door'', ''window'']
      then load_nodes get_final_category cat_to_index load_objects nodes
             object_nodes (door_window_nodes @ [set_category node category])
      else if load_objects
      then (case cat_to_index category of
              None \<Rightarrow> Inl KeyError
            | Some i \<Rightarrow> load_nodes get_final_category cat_to_index load_objects nodes
                         (object_nodes @ [set_category node i]) door_window_nodes)
      else load_nodes get_final_category cat_to_index load_objects nodes
             object_nodes door_window_nodes)"

text \<open>
  The part of \<^verbatim>\<open>RenderedScene.__init__\<close> that orders the furniture records: lines 67-68
  and 104-116. Python's global random generator is a state of type \<open>'g\<close>;
  \<^verbatim>\<open>random.seed\<close> and \<^verbatim>\<open>random.shuffle\<close> are parameters. \<^verbatim>\<open>if seed:\<close> is false for
  \<^verbatim>\<open>None\<close> and for \<open>0\<close>. The result is \<^verbatim>\<open>object_nodes\<close> and \<^verbatim>\<open>door_window_nodes\<close>, with the
  generator's state after the call.
\<close>
definition RenderedScene_init ::
  "(int \<Rightarrow> 'g) \<Rightarrow> ('g \<Rightarrow> int node list \<Rightarrow> int node list \<times> 'g) \<Rightarrow>
   (string \<Rightarrow> string) \<Rightarrow> (string \<rightharpoonup> int) \<Rightarrow>
   'g \<Rightarrow> unit node list \<Rightarrow> bool \<Rightarrow> bool \<Rightarrow> int option
     \<Rightarrow> (error + (int node list \<times> string node list)) \<times> 'g" where
  "RenderedScene_init random_seed random_shuffle get_final_category cat_to_index
       rng nodes shuffle load_objects seed =
     (let rng1 = (case seed of None \<Rightarrow> rng | Some s \<Rightarrow> if s \<noteq> 0 then random_seed s else rng) in
      case load_nodes get_final_category cat_to_index load_objects nodes [] [] of
        Inl e \<Rightarrow> (Inl e, rng1)
      | Inr (object_nodes, door_window_nodes) \<Rightarrow>
          if shuffle
          then (Inr (fst (random_shuffle rng1 object_nodes), door_window_nodes),
                snd (random_shuffle rng1 object_nodes))
          else (Inr (object_nodes, door_window_nodes), rng1))"

section \<open>Offsets, buffers and layouts\<close>

text \<open>The offset that lines 216-225 (and 162-171) compute on one axis from the size of the
  patch and the bounding-box coordinate, and the buffer \<^verbatim>\<open>to_add\<close> that lines 226-227
  (and 172-173) build from a record.\<close>
definition clamp_offset :: "nat \<Rightarrow> real \<Rightarrow> nat" where
  "clamp_offset n x = (if n = 256 then 0 else if \<lfloor>x\<rfloor> < 0 then 0 else nat \<lfloor>x\<rfloor>)"

definition node_to_add :: "nat \<Rightarrow> 'c node \<Rightarrow> error + grid" where
  "node_to_add S node =
     paste S (zeros S S)
       (clamp_offset (nrows (n_height_map node)) (fst (n_bbox_min node))) (nrows (n_height_map node))
       (clamp_offset (ncols (n_height_map node)) (snd (snd (n_bbox_min node)))) (ncols (n_height_map node))
       (n_height_map node)"

text \<open>The full channel layout as the docstring of \<^verbatim>\<open>get_composite\<close> documents it,
  read off the store: room mask, wall mask, the sum of the category layers, height map, sine and
  cosine maps, door and window maps, one channel per category in order, then \<open>k\<close> empty
  channels.\<close>
definition full_layout :: "heap \<Rightarrow> RenderedComposite \<Rightarrow> nat \<Rightarrow> grid list" where
  "full_layout h self k =
     [h ! room_mask self, h ! wall_mask self,
      gsum (size_S self) (map (\<lambda>a. h ! a) (cat_map self)),
      h ! height_map self, h ! sin_map self, h ! cos_map self,
      h ! door_map self, h ! window_map self]
     @ map (\<lambda>a. h ! a) (cat_map self)
     @ replicate k (zeros (size_S self) (size_S self))"

text \<open>The value a call returned: the exception, or the contents of the returned tensor in
  the store the call left.\<close>
definition returned :: "(error + addr list) \<times> heap \<Rightarrow> error + grid list" where
  "returned r = (case fst r of Inl e \<Rightarrow> Inl e | Inr t \<Rightarrow> Inr (map (\<lambda>a. snd r ! a) t))"

text \<open>\<^verbatim>\<open>mask\<close> of lines 201-202 and 276-277: \<open>1/2\<close> where \<^verbatim>\<open>to_add\<close> is positive.\<close>
definition patch_mask :: "nat \<Rightarrow> grid \<Rightarrow> grid" where
  "patch_mask S to_add = masked_fill S (zeros S S) (gt0 S to_add) (1/2)"

text \<open>The channels \<^verbatim>\<open>add_and_get_composite\<close> has written when it reaches line 294.\<close>
definition preview_layout ::
  "heap \<Rightarrow> RenderedComposite \<Rightarrow> grid \<Rightarrow> real \<Rightarrow> real \<Rightarrow> nat \<Rightarrow> grid list" where
  "preview_layout h self to_add sin_a cos_a k =
     [h ! room_mask self, h ! wall_mask self,
      gadd (size_S self) (gsum (size_S self) (map (\<lambda>a. h ! a) (cat_map self)))
        (patch_mask (size_S self) to_add),
      masked_copy (size_S self) (h ! height_map self)
        (gt (size_S self) to_add (h ! height_map self)) to_add,
      masked_fill (size_S self) (h ! sin_map self)
        (gt (size_S self) to_add (h ! height_map self)) ((sin_a + 1) / 2),
      masked_fill (size_S self) (h ! cos_map self)
        (gt (size_S self) to_add (h ! height_map self)) ((cos_a + 1) / 2),
      h ! door_map self, h ! window_map self]
     @ map (\<lambda>a. h ! a) (cat_map self)
     @ replicate k (zeros (size_S self) (size_S self))"

text \<open>The three layouts the docstring of \<^verbatim>\<open>get_composite\<close> documents, by the value of
  \<^verbatim>\<open>ablation\<close>: the full one, \<^verbatim>\<open>"depth"\<close> (the height map alone) and \<^verbatim>\<open>"basic"\<close> (the first
  six channels), each followed by \<open>k\<close> empty channels; any other value raises.\<close>
definition ablation_layout ::
  "heap \<Rightarrow> RenderedComposite \<Rightarrow> nat \<Rightarrow> string option \<Rightarrow> error + grid list" where
  "ablation_layout h self k ablation =
     (if ablation = None then Inr (full_layout h self k)
      else if ablation = Some ''depth''
      then Inr (h ! height_map self # replicate k (zeros (size_S self) (size_S self)))
      else if ablation = Some ''basic''
      then Inr ([h ! room_mask self, h ! wall_mask self,
                 gsum (size_S self) (map (\<lambda>a. h ! a) (cat_map self)),
                 h ! height_map self, h ! sin_map self, h ! cos_map self]
                @ replicate k (zeros (size_S self) (size_S self)))
      else Inl NotImplementedError)"

text \<open>A caller that makes the preview calls of a list one after the other; the result is the
  store the calls leave.\<close>
fun preview_calls ::
  "heap \<Rightarrow> RenderedComposite \<Rightarrow> (grid \<times> int \<times> real \<times> real \<times> nat) list \<Rightarrow> heap" where
  "preview_calls h self [] = h"
| "preview_calls h self ((to_add, category, sin_a, cos_a, k) # calls) =
     preview_calls (snd (add_and_get_composite h self to_add category sin_a cos_a k True)) self calls"


section \<open>Example rooms and records\<close>


text \<open>A \<open>2\<times>2\<close> room with two categories in which furniture, a door and a window have been
  placed: every tensor of the builder is different from the others.\<close>

definition ex2_self :: RenderedComposite where
  "ex2_self = \<lparr> size_S = 2, categories = [''chair'', ''table''], room_mask = 0, wall_mask = 1,
                height_map = 2, cat_map = [3, 4], sin_map = 5, cos_map = 6,
                door_map = 7, window_map = 8 \<rparr>"

definition ex2_heap :: heap where
  "ex2_heap = [[[1, 1], [1, 0]], [[1/2, 0], [1, 1]], [[3, 1], [2, 5]], [[1/2, 0], [0, 0]],
               [[1/2, 1], [0, 1/2]], [[1/4, 0], [0, 1]], [[3/4, 0], [1, 1/2]],
               [[0, 0], [1/2, 0]], [[0, 0], [0, 1/2]]]"

text \<open>A patch overflows the \<open>S\<times>S\<close> buffer on an axis where it has at least two rows (or
  columns) when its offset plus its size exceeds \<open>S\<close> there.\<close>
definition overflows :: "nat \<Rightarrow> grid \<Rightarrow> real \<times> real \<times> real \<Rightarrow> bool" where
  "overflows S hm bbox_min \<longleftrightarrow>
     (2 \<le> nrows hm \<and> S < clamp_offset (nrows hm) (fst bbox_min) + nrows hm)
   \<or> (2 \<le> ncols hm \<and> S < clamp_offset (ncols hm) (snd (snd bbox_min)) + ncols hm)"

text \<open>A one-cell chair at the far edge, a two-row chair that sticks out of the room, and a
  door that does.\<close>
definition ex_edge :: "int node" where
  "ex_edge = \<lparr> n_modelId = ''chair_2'', n_height_map = [[5]], n_bbox_min = (2, 0, 0),
               n_transform = [1, 0, 0, 0, 0, 1, 0, 0, 0, 0, 1, 0, 0, 0, 0, 1],
               n_height_map_obb = [[5]], n_bbox_min_obb = (2, 0, 0), n_category = 0 \<rparr>"

definition ex_out :: "int node" where
  "ex_out = \<lparr> n_modelId = ''chair_3'', n_height_map = [[5], [5]], n_bbox_min = (3/2, 0, 0),
              n_transform = [1, 0, 0, 0, 0, 1, 0, 0, 0, 0, 1, 0, 0, 0, 0, 1],
              n_height_map_obb = [[5], [5]], n_bbox_min_obb = (3/2, 0, 0), n_category = 0 \<rparr>"

definition ex_door :: "string node" where
  "ex_door = \<lparr> n_modelId = ''door_1'', n_height_map = [[2, 2]], n_bbox_min = (0, 0, 1),
               n_transform = [1, 0, 0, 0, 0, 1, 0, 0, 0, 0, 1, 0, 0, 0, 0, 1],
               n_height_map_obb = [[2, 2]], n_bbox_min_obb = (0, 0, 1), n_category = ''door'' \<rparr>"

text \<open>A \<open>256\<times>256\<close> room with one category, as \<^verbatim>\<open>__init__\<close> lays it out in the store, and a
  wardrobe whose patches are 256 rows high and whose bounding boxes start at \<open>x = 3.7\<close>.\<close>

definition ex_big_self :: RenderedComposite where
  "ex_big_self = \<lparr> size_S = 256, categories = [''wardrobe''], room_mask = 0, wall_mask = 1,
                   height_map = 2, cat_map = [3], sin_map = 4, cos_map = 5,
                   door_map = 6, window_map = 7 \<rparr>"

definition ex_big_heap :: heap where
  "ex_big_heap = replicate 8 (zeros 256 256)"

definition ex_wide :: "int node" where
  "ex_wide = \<lparr> n_modelId = ''wardrobe_1'', n_height_map = replicate 256 [1],
               n_bbox_min = (37/10, 0, 0),
               n_transform = [1, 0, 0, 0, 0, 1, 0, 0, 0, 0, 1, 0, 0, 0, 0, 1],
               n_height_map_obb = replicate 256 [1], n_bbox_min_obb = (37/10, 0, 0),
               n_category = 0 \<rparr>"

text \<open>
  Two raw records of a room, a category resolver and a category index for them, and a small
  stand-in for Python's generator whose shuffle depends on its state, as that of
  \<^verbatim>\<open>random\<close> does: the state is a number, seeding sets it, and shuffling rotates the list by
  the state and advances it.
\<close>
definition ex_raw :: "unit node list" where
  "ex_raw =
     [\<lparr> n_modelId = ''m_chair'', n_height_map = [[4]], n_bbox_min = (0, 0, 0),
        n_transform = [1, 0, 0, 0, 0, 1, 0, 0, 0, 0, 1, 0, 0, 0, 0, 1],
        n_height_map_obb = [[4]], n_bbox_min_obb = (0, 0, 0), n_category = () \<rparr>,
      \<lparr> n_modelId = ''m_door'', n_height_map = [[2]], n_bbox_min = (1, 0, 0),
        n_transform = [1, 0, 0, 0, 0, 1, 0, 0, 0, 0, 1, 0, 0, 0, 0, 1],
        n_height_map_obb = [[2]], n_bbox_min_obb = (1, 0, 0), n_category = () \<rparr>,
      \<lparr> n_modelId = ''m_table'', n_height_map = [[3]], n_bbox_min = (1, 0, 1),
        n_transform = [1, 0, 0, 0, 0, 1, 0, 0, 0, 0, 1, 0, 0, 0, 0, 1],
        n_height_map_obb = [[3]], n_bbox_min_obb = (1, 0, 1), n_category = () \<rparr>]"

definition ex_final_category :: "string \<Rightarrow> string" where
  "ex_final_category m =
     (if m = ''m_chair'' then ''chair'' else if m = ''m_door'' then ''door'' else ''table'')"

definition ex_cat_to_index :: "string \<rightharpoonup> int" where
  "ex_cat_to_index = [''chair'' \<mapsto> 0, ''table'' \<mapsto> 1]"

definition ex_seed :: "int \<Rightarrow> nat" where
  "ex_seed s = nat \<bar>s\<bar>"

definition ex_shuffle :: "nat \<Rightarrow> int node list \<Rightarrow> int node list \<times> nat" where
  "ex_shuffle g xs = (rotate g xs, Suc g)"

subsection \<open>A small builder\<close>

text \<open>A \<open>2\<times>2\<close> room with one category, as \<^verbatim>\<open>__init__\<close> lays it out in the store, and a
  chair record.\<close>

definition ex_self :: RenderedComposite where
  "ex_self = \<lparr> size_S = 2, categories = [''chair''], room_mask = 0, wall_mask = 1,
               height_map = 2, cat_map = [3], sin_map = 4, cos_map = 5,
               door_map = 6, window_map = 7 \<rparr>"

definition ex_heap :: heap where
  "ex_heap = [[[1, 1], [1, 0]], [[1/2, 0], [0, 0]], [[3, 1], [2, 0]], [[0, 0], [0, 0]],
              [[0, 0], [0, 0]], [[0, 0], [0, 0]], [[0, 0], [0, 0]], [[0, 0], [0, 0]]]"

definition ex_node :: "int node" where
  "ex_node = \<lparr> n_modelId = ''chair_1'', n_height_map = [[4]], n_bbox_min = (0, 0, 0),
               n_transform = [1, 0, 0, 0, 0, 1, 0, 0, 0, 0, 1, 0, 0, 0, 0, 1],
               n_height_map_obb = [[4]], n_bbox_min_obb = (0, 0, 0), n_category = 0 \<rparr>"

section \<open>Basic facts about grids\<close>

lemma length_tabulate2 [simp]: "length (tabulate2 n m f) = n"
  by (simp add: tabulate2_def)

lemma nth_tabulate2 [simp]: "i < n \<Longrightarrow> j < m \<Longrightarrow> tabulate2 n m f ! i ! j = f i j"
  by (simp add: tabulate2_def)

lemma is_shape_tabulate2 [simp]: "is_shape n m (tabulate2 n m f)"
  by (simp add: is_shape_def tabulate2_def list_all_iff)

lemma nth_zeros [simp]: "i < n \<Longrightarrow> j < m \<Longrightarrow> zeros n m ! i ! j = 0"
  by (simp add: zeros_def)

lemma is_shape_zeros [simp]: "is_shape n m (zeros n m)"
  by (simp add: zeros_def)

lemma is_shape_ops [simp]:
  "is_shape S S (masked_copy S d m s)"
  "is_shape S S (masked_fill S d m v)"
  "is_shape S S (gadd S a b)"
  "is_shape S S (gmax S a b)"
  "is_shape S S (gsum S ls)"
  by (simp_all add: masked_copy_def masked_fill_def gadd_def gmax_def gsum_def)

lemma nth_ops [simp]:
  assumes "i < S" "j < S"
  shows "gt S a b ! i ! j \<longleftrightarrow> b ! i ! j < a ! i ! j"
    and "gt0 S a ! i ! j \<longleftrightarrow> 0 < a ! i ! j"
    and "ne0 S a ! i ! j \<longleftrightarrow> a ! i ! j \<noteq> 0"
    and "masked_copy S d m s ! i ! j = (if m ! i ! j then s ! i ! j else d ! i ! j)"
    and "masked_fill S d m v ! i ! j = (if m ! i ! j then v else d ! i ! j)"
    and "gadd S a b ! i ! j = a ! i ! j + b ! i ! j"
    and "gmax S a b ! i ! j = max (a ! i ! j) (b ! i ! j)"
    and "gsum S ls ! i ! j = sum_list (map (\<lambda>g. g ! i ! j) ls)"
  using assms
  by (simp_all add: gt_def gt0_def ne0_def masked_copy_def masked_fill_def gadd_def gmax_def gsum_def)

lemma py_index_Some: "py_index n i = Some c \<Longrightarrow> c < n"
  by (auto simp: py_index_def split: if_splits)

lemma py_index_valid: "0 \<le> i \<Longrightarrow> i < int n \<Longrightarrow> py_index n i = Some (nat i)"
  by (simp add: py_index_def)

lemma wf_distinct:
  assumes "wf h self"
  shows "distinct [room_mask self, wall_mask self, height_map self, sin_map self, cos_map self,
                 door_map self, window_map self]"
    and "distinct (cat_map self)"
  using assms by (auto simp: wf_def addrs_def)

lemma wf_cat_fresh:
  assumes "wf h self" "c < length (cat_map self)"
  shows "cat_map self ! c \<notin> {room_mask self, wall_mask self, height_map self, sin_map self,
                               cos_map self, door_map self, window_map self}"
proof -
  have "cat_map self ! c \<in> set (cat_map self)" using assms(2) by simp
  then show ?thesis using assms(1) by (auto simp: wf_def addrs_def)
qed

lemma wf_bounds:
  assumes "wf h self" "a \<in> set (addrs self)"
  shows "a < length h" "is_shape (size_S self) (size_S self) (h ! a)"
  using assms by (auto simp: wf_def list_all_iff)

lemma addrs_mem [simp]:
  "room_mask self \<in> set (addrs self)" "wall_mask self \<in> set (addrs self)"
  "height_map self \<in> set (addrs self)" "sin_map self \<in> set (addrs self)"
  "cos_map self \<in> set (addrs self)" "door_map self \<in> set (addrs self)"
  "window_map self \<in> set (addrs self)"
  "c < length (cat_map self) \<Longrightarrow> cat_map self ! c \<in> set (addrs self)"
  by (simp_all add: addrs_def)

lemma add_height_map_ok:
  assumes wf: "wf h self" and sh: "is_shape (size_S self) (size_S self) to_add"
    and c: "py_index (length (cat_map self)) category = Some c"
  shows "add_height_map h self to_add category sin_a cos_a =
     (Inr (), h[height_map self := masked_copy (size_S self) (h ! height_map self) (gt (size_S self) to_add (h ! height_map self)) to_add,
               cat_map self ! c := gadd (size_S self) (h ! (cat_map self ! c)) (masked_fill (size_S self) (zeros (size_S self) (size_S self)) (gt0 (size_S self) to_add) (1/2)),
               sin_map self := masked_fill (size_S self) (h ! sin_map self) (gt (size_S self) to_add (h ! height_map self)) ((sin_a + 1) / 2),
               cos_map self := masked_fill (size_S self) (h ! cos_map self) (gt (size_S self) to_add (h ! height_map self)) ((cos_a + 1) / 2)])"
proof -
  have cl: "c < length (cat_map self)" using c by (rule py_index_Some)
  note d = wf_distinct[OF wf]
  have ne: "cat_map self ! c \<noteq> height_map self" "sin_map self \<noteq> height_map self"
    "sin_map self \<noteq> cat_map self ! c" "cos_map self \<noteq> height_map self"
    "cos_map self \<noteq> cat_map self ! c" "cos_map self \<noteq> sin_map self"
    using d(1) wf_cat_fresh[OF wf cl] by auto
  show ?thesis
    using sh c ne by (simp add: add_height_map_def Let_def)
qed


lemma add_height_map_bad_shape:
  "\<not> is_shape (size_S self) (size_S self) to_add \<Longrightarrow>
     add_height_map h self to_add category sin_a cos_a = (Inl RuntimeError, h)"
  by (simp add: add_height_map_def)

lemma add_height_map_bad_category:
  assumes "is_shape (size_S self) (size_S self) to_add"
    and "py_index (length (cat_map self)) category = None"
  shows "add_height_map h self to_add category sin_a cos_a =
     (Inl IndexError,
      h[height_map self := masked_copy (size_S self) (h ! height_map self)
          (gt (size_S self) to_add (h ! height_map self)) to_add])"
  using assms by (simp add: add_height_map_def Let_def)

lemma add_height_map_length [simp]:
  "length (snd (add_height_map h self to_add category sin_a cos_a)) = length h"
  by (simp add: add_height_map_def Let_def split: option.splits)

lemma add_height_map_height:
  assumes wf: "wf h self" and ij: "i < size_S self" "j < size_S self"
  shows "snd (add_height_map h self to_add category sin_a cos_a) ! height_map self ! i ! j =
     (if is_shape (size_S self) (size_S self) to_add \<and> h ! height_map self ! i ! j < to_add ! i ! j
      then to_add ! i ! j else h ! height_map self ! i ! j)"
proof (cases "is_shape (size_S self) (size_S self) to_add")
  case False
  then show ?thesis by (simp add: add_height_map_bad_shape)
next
  case sh: True
  have b: "height_map self < length h" using wf_bounds(1)[OF wf] by simp
  show ?thesis
  proof (cases "py_index (length (cat_map self)) category")
    case None
    show ?thesis using sh b ij by (simp add: add_height_map_bad_category[OF sh None])
  next
    case (Some c)
    have cl: "c < length (cat_map self)" using Some by (rule py_index_Some)
    have ne: "cat_map self ! c \<noteq> height_map self" "sin_map self \<noteq> height_map self"
      "cos_map self \<noteq> height_map self"
      using wf_distinct(1)[OF wf] wf_cat_fresh[OF wf cl] by auto
    show ?thesis using sh b ij ne by (simp add: add_height_map_ok[OF wf sh Some])
  qed
qed

lemma add_height_map_orient:
  assumes wf: "wf h self" and ij: "i < size_S self" "j < size_S self"
    and sh: "is_shape (size_S self) (size_S self) to_add"
    and c: "py_index (length (cat_map self)) category = Some c"
  shows "snd (add_height_map h self to_add category sin_a cos_a) ! sin_map self ! i ! j =
     (if h ! height_map self ! i ! j < to_add ! i ! j
      then (sin_a + 1) / 2 else h ! sin_map self ! i ! j)"
    and "snd (add_height_map h self to_add category sin_a cos_a) ! cos_map self ! i ! j =
     (if h ! height_map self ! i ! j < to_add ! i ! j
      then (cos_a + 1) / 2 else h ! cos_map self ! i ! j)"
proof -
  have b: "sin_map self < length h" "cos_map self < length h"
    using wf_bounds(1)[OF wf] by simp_all
  have cl: "c < length (cat_map self)" using c by (rule py_index_Some)
  have ne: "cat_map self ! c \<noteq> sin_map self" "cat_map self ! c \<noteq> cos_map self"
    "cos_map self \<noteq> sin_map self"
    using wf_distinct(1)[OF wf] wf_cat_fresh[OF wf cl] by auto
  show "snd (add_height_map h self to_add category sin_a cos_a) ! sin_map self ! i ! j =
     (if h ! height_map self ! i ! j < to_add ! i ! j
      then (sin_a + 1) / 2 else h ! sin_map self ! i ! j)"
    using b ij ne by (simp add: add_height_map_ok[OF wf sh c])
  show "snd (add_height_map h self to_add category sin_a cos_a) ! cos_map self ! i ! j =
     (if h ! height_map self ! i ! j < to_add ! i ! j
      then (cos_a + 1) / 2 else h ! cos_map self ! i ! j)"
    using b ij ne by (simp add: add_height_map_ok[OF wf sh c])
qed

lemma add_height_map_cat:
  assumes wf: "wf h self" and ij: "i < size_S self" "j < size_S self"
    and sh: "is_shape (size_S self) (size_S self) to_add"
    and c: "py_index (length (cat_map self)) category = Some c"
    and d: "d < length (cat_map self)"
  shows "snd (add_height_map h self to_add category sin_a cos_a) ! (cat_map self ! d) ! i ! j =
     (if d = c then h ! (cat_map self ! d) ! i ! j + (if 0 < to_add ! i ! j then 1/2 else 0)
      else h ! (cat_map self ! d) ! i ! j)"
proof -
  have cl: "c < length (cat_map self)" using c by (rule py_index_Some)
  have b: "cat_map self ! c < length h"
    using wf_bounds(1)[OF wf, of "cat_map self ! c"] cl by simp
  have ne: "cat_map self ! d \<noteq> sin_map self" "cat_map self ! d \<noteq> cos_map self"
    "cat_map self ! d \<noteq> height_map self"
    using wf_cat_fresh[OF wf d] by auto
  have dc: "cat_map self ! d = cat_map self ! c \<longleftrightarrow> d = c"
    using wf_distinct(2)[OF wf] d cl by (simp add: nth_eq_iff_index_eq)
  show ?thesis
    using b ij ne dc by (auto simp add: add_height_map_ok[OF wf sh c])
qed

lemma add_height_map_frame:
  assumes wf: "wf h self"
    and a: "a \<in> {room_mask self, wall_mask self, door_map self, window_map self}"
  shows "snd (add_height_map h self to_add category sin_a cos_a) ! a = h ! a"
proof -
  have ne: "a \<noteq> height_map self" "a \<noteq> sin_map self" "a \<noteq> cos_map self"
    using wf_distinct(1)[OF wf] a by auto
  have nc: "\<And>c. c < length (cat_map self) \<Longrightarrow> cat_map self ! c \<noteq> a"
    using wf_cat_fresh[OF wf] a by auto
  show ?thesis
    using ne nc by (auto simp add: add_height_map_def Let_def split: option.splits dest!: py_index_Some)
qed

lemma is_shape_upd:
  "is_shape n m (h ! b) \<Longrightarrow> is_shape n m g \<Longrightarrow> b < length h \<Longrightarrow> is_shape n m (h[a := g] ! b)"
  by (cases "a < length h") (auto simp add: nth_list_update)

lemma add_height_map_wf:
  assumes wf: "wf h self"
  shows "wf (snd (add_height_map h self to_add category sin_a cos_a)) self"
proof -
  have "is_shape (size_S self) (size_S self) (snd (add_height_map h self to_add category sin_a cos_a) ! a)"
    if "a \<in> set (addrs self)" for a
    using wf_bounds[OF wf that]
    by (auto simp add: add_height_map_def Let_def split: option.splits intro!: is_shape_upd)
  then show ?thesis using wf by (simp add: wf_def list_all_iff)
qed


lemma add_node_unfold:
  "add_node h self node =
     (case node_to_add (size_S self) node of
        Inl e \<Rightarrow> (Inl e, h)
      | Inr to_add \<Rightarrow>
          (case get_transformation (n_transform node) of
             Inl e \<Rightarrow> (Inl e, h)
           | Inr (sin_a, cos_a) \<Rightarrow> add_height_map h self to_add (n_category node) sin_a cos_a))"
  by (simp add: add_node_def node_to_add_def clamp_offset_def Let_def)

lemma add_node_cases:
  "snd (add_node h self node) = h \<or>
   (\<exists>to_add sin_a cos_a. add_node h self node =
       add_height_map h self to_add (n_category node) sin_a cos_a)"
proof (cases "node_to_add (size_S self) node")
  case (Inl e)
  then show ?thesis by (simp add: add_node_unfold)
next
  case (Inr to_add)
  show ?thesis
  proof (cases "get_transformation (n_transform node)")
    case (Inl e)
    then show ?thesis using Inr by (simp add: add_node_unfold)
  next
    case r: (Inr sc)
    obtain s c where sc: "sc = (s, c)" by (cases sc)
    have "add_node h self node = add_height_map h self to_add (n_category node) s c"
      using Inr r sc by (simp add: add_node_unfold)
    then show ?thesis by blast
  qed
qed

lemma add_node_wf:
  assumes "wf h self"
  shows "wf (snd (add_node h self node)) self"
proof -
  from add_node_cases[of h self node] show ?thesis
  proof
    assume "snd (add_node h self node) = h"
    then show ?thesis using assms by simp
  next
    assume "\<exists>to_add sin_a cos_a. add_node h self node =
       add_height_map h self to_add (n_category node) sin_a cos_a"
    then obtain to_add s c where
      "add_node h self node = add_height_map h self to_add (n_category node) s c" by blast
    then show ?thesis using add_height_map_wf[OF assms] by simp
  qed
qed

lemma add_height_map_mono:
  assumes wf: "wf h self" and ij: "i < size_S self" "j < size_S self"
  shows "h ! height_map self ! i ! j \<le>
         snd (add_height_map h self to_add category sin_a cos_a) ! height_map self ! i ! j"
  by (simp add: add_height_map_height[OF wf ij])

lemma add_node_mono:
  assumes wf: "wf h self" and ij: "i < size_S self" "j < size_S self"
  shows "h ! height_map self ! i ! j \<le> snd (add_node h self node) ! height_map self ! i ! j"
proof -
  from add_node_cases[of h self node] show ?thesis
  proof
    assume "snd (add_node h self node) = h"
    then show ?thesis by simp
  next
    assume "\<exists>to_add sin_a cos_a. add_node h self node =
       add_height_map h self to_add (n_category node) sin_a cos_a"
    then obtain to_add s c where
      "add_node h self node = add_height_map h self to_add (n_category node) s c" by blast
    then show ?thesis using add_height_map_mono[OF wf ij] by simp
  qed
qed

lemma add_nodes_mono:
  assumes "wf h self" and ij: "i < size_S self" "j < size_S self"
  shows "h ! height_map self ! i ! j \<le> snd (add_nodes h self nodes) ! height_map self ! i ! j"
  using assms(1)
proof (induction nodes arbitrary: h)
  case Nil
  then show ?case by simp
next
  case (Cons node nodes)
  obtain r h1 where step: "add_node h self node = (r, h1)" by (cases "add_node h self node")
  have wf1: "wf h1 self" using add_node_wf[OF Cons.prems, of node] step by simp
  have m1: "h ! height_map self ! i ! j \<le> h1 ! height_map self ! i ! j"
    using add_node_mono[OF Cons.prems ij, of node] step by simp
  show ?case
  proof (cases r)
    case (Inl e)
    then show ?thesis using step m1 by simp
  next
    case (Inr u)
    have "h1 ! height_map self ! i ! j \<le> snd (add_nodes h1 self nodes) ! height_map self ! i ! j"
      by (rule Cons.IH[OF wf1])
    then show ?thesis using step Inr m1 by simp
  qed
qed

section \<open>The returned composites\<close>

lemma fold_layers_length [simp]:
  "length (fold (\<lambda>i ys. ys[i + 8 := f i]) [0..<C] ys) = length ys"
  by (induction C) simp_all

lemma fold_layers_nth:
  "a < length ys \<Longrightarrow>
   fold (\<lambda>i ys. ys[i + 8 := f i]) [0..<C] ys ! a = (if 8 \<le> a \<and> a < 8 + C then f (a - 8) else ys ! a)"
proof (induction C)
  case 0
  then show ?case by auto
next
  case (Suc C)
  show ?case
  proof (cases "a = C + 8")
    case True
    then show ?thesis using Suc.prems by simp
  next
    case False
    then have "(fold (\<lambda>i ys. ys[i + 8 := f i]) [0..<C] ys)[C + 8 := f C] ! a
        = fold (\<lambda>i ys. ys[i + 8 := f i]) [0..<C] ys ! a"
      by simp
    then show ?thesis using Suc False by auto
  qed
qed

lemma fold_layers_append:
  assumes "\<forall>i<C. src ! i < length h" and "C + 8 \<le> N" and "length ys = N"
  shows "fold (\<lambda>i hp. hp[[length h..<length h + N] ! (i + 8) := hp ! (src ! i)]) [0..<C] (h @ ys)
       = h @ fold (\<lambda>i ys. ys[i + 8 := h ! (src ! i)]) [0..<C] ys"
  using assms(1,2)
proof (induction C)
  case 0
  then show ?case by simp
next
  case (Suc C)
  have ih: "fold (\<lambda>i hp. hp[[length h..<length h + N] ! (i + 8) := hp ! (src ! i)]) [0..<C] (h @ ys)
       = h @ fold (\<lambda>i ys. ys[i + 8 := h ! (src ! i)]) [0..<C] ys"
    using Suc by simp
  have s: "src ! C < length h" using Suc.prems by simp
  have n: "[length h..<length h + N] ! (C + 8) = length h + (C + 8)"
    using Suc.prems by simp
  show ?case
    using s by (simp add: ih n list_update_append nth_append)
qed

lemma map_nth_append_old:
  "\<forall>a\<in>set as. a < length h \<Longrightarrow> map (\<lambda>a. (h @ ys) ! a) as = map (\<lambda>a. h ! a) as"
  by (simp add: nth_append)

lemma wf_cat_bound:
  assumes "wf h self"
  shows "\<forall>a\<in>set (cat_map self). a < length h" and "\<forall>i<length (cat_map self). cat_map self ! i < length h"
  using assms by (auto simp: wf_def addrs_def list_all_iff)

lemma get_composite_full_heap:
  assumes wf: "wf h self"
  shows "get_composite h self k None =
     (Inr [length h ..< length h + (length (categories self) + k + 8)],
      h @ fold (\<lambda>i ys. ys[i + 8 := h ! (cat_map self ! i)]) [0..<length (categories self)]
            ((replicate (length (categories self) + k + 8) (zeros (size_S self) (size_S self)))
               [0 := h ! room_mask self, 1 := h ! wall_mask self,
                2 := gsum (size_S self) (map (\<lambda>a. h ! a) (cat_map self)),
                3 := h ! height_map self, 4 := h ! sin_map self, 5 := h ! cos_map self,
                6 := h ! door_map self, 7 := h ! window_map self]))"
proof -
  have b: "room_mask self < length h" "wall_mask self < length h" "height_map self < length h"
    "sin_map self < length h" "cos_map self < length h" "door_map self < length h"
    "window_map self < length h"
    using wf_bounds(1)[OF wf] by simp_all
  have cl: "length (cat_map self) = length (categories self)" using wf by (simp add: wf_def)
  note cb = wf_cat_bound[OF wf]
  have src: "\<forall>i<length (categories self). cat_map self ! i < length h"
    using cb(2) cl by simp
  show ?thesis
    using b
    by (simp add: get_composite_def alloc_n_def Let_def list_update_append nth_append
        map_nth_append_old[OF cb(1)] fold_layers_append[OF src])
qed

lemma suffix_layout:
  assumes "length cm = C"
  shows "fold (\<lambda>i ys. ys[i + 8 := f (cm ! i)]) [0..<C]
           ((replicate (C + k + 8) z)[0 := a0, 1 := a1, 2 := a2, 3 := a3, 4 := a4, 5 := a5,
                                       6 := a6, 7 := a7])
       = [a0, a1, a2, a3, a4, a5, a6, a7] @ map f cm @ replicate k z"
    (is "?l = ?r")
proof (rule nth_equalityI)
  show "length ?l = length ?r" using assms by simp
next
  fix i assume "i < length ?l"
  then have i: "i < C + k + 8" by simp
  let ?ys = "(replicate (C + k + 8) z)[0 := a0, 1 := a1, 2 := a2, 3 := a3, 4 := a4, 5 := a5,
                                       6 := a6, 7 := a7]"
  have nth: "?l ! i = (if 8 \<le> i \<and> i < 8 + C then f (cm ! (i - 8)) else ?ys ! i)"
    using i by (simp add: fold_layers_nth)
  define pre where "pre = [a0, a1, a2, a3, a4, a5, a6, a7]"
  have lp: "length pre = 8" by (simp add: pre_def)
  have r: "?r = pre @ map f cm @ replicate k z" by (simp add: pre_def)
  have tl: "8 \<le> i \<Longrightarrow> ?r ! i = (map f cm @ replicate k z) ! (i - 8)"
    unfolding r by (simp add: nth_append lp)
  consider "i < 8" | "8 \<le> i" "i < 8 + C" | "8 + C \<le> i" by linarith
  then show "?l ! i = ?r ! i"
  proof cases
    case 1
    then have "i = 0 \<or> i = 1 \<or> i = 2 \<or> i = 3 \<or> i = 4 \<or> i = 5 \<or> i = 6 \<or> i = 7" by linarith
    then show ?thesis using nth by (elim disjE) simp_all
  next
    case 2
    have "i - 8 < length cm" using 2 assms by linarith
    then have "(map f cm @ replicate k z) ! (i - 8) = f (cm ! (i - 8))"
      by (simp add: nth_append)
    then show ?thesis using nth 2 tl by simp
  next
    case 3
    have "\<not> i - 8 < length cm" "i - 8 - length cm < k" using 3 i assms by linarith+
    then have "(map f cm @ replicate k z) ! (i - 8) = z"
      by (simp add: nth_append)
    then show ?thesis using nth 3 i tl by simp
  qed
qed

lemma get_composite_full:
  assumes wf: "wf h self"
  shows "get_composite h self k None =
     (Inr [length h ..< length h + (length (categories self) + k + 8)],
      h @ full_layout h self k)"
proof -
  have cl: "length (cat_map self) = length (categories self)" using wf by (simp add: wf_def)
  show ?thesis
    unfolding get_composite_full_heap[OF wf] full_layout_def
    by (simp only: suffix_layout[OF cl, where f = "\<lambda>a. h ! a"])
qed

lemma returned_append:
  "returned (Inr [length h ..< length h + length ys], h @ ys) = Inr ys"
proof -
  have "map (\<lambda>a. (h @ ys) ! a) [length h ..< length h + length ys] = ys"
    by (rule nth_equalityI) (simp_all add: nth_append)
  then show ?thesis by (simp add: returned_def)
qed

lemma length_full_layout [simp]:
  "length (full_layout h self k) = 8 + length (cat_map self) + k"
  by (simp add: full_layout_def)

lemma get_composite_returned:
  assumes wf: "wf h self"
  shows "returned (get_composite h self k None) = Inr (full_layout h self k)"
proof -
  have cl: "length (cat_map self) = length (categories self)" using wf by (simp add: wf_def)
  have "length (categories self) + k + 8 = length (full_layout h self k)"
    using cl by simp
  then show ?thesis
    unfolding get_composite_full[OF wf] by (simp only: returned_append)
qed

lemma add_and_get_composite_heap0:
  fixes h self to_add sin_a cos_a k
  defines "S \<equiv> size_S self"
  defines "ys \<equiv> fold (\<lambda>i ys. ys[i + 8 := h ! (cat_map self ! i)]) [0..<length (categories self)]
           ((replicate (length (categories self) + k + 8) (zeros S S))
              [0 := h ! room_mask self, 1 := h ! wall_mask self,
               2 := gadd S (gsum S (map (\<lambda>a. h ! a) (cat_map self))) (patch_mask S to_add),
               3 := masked_copy S (h ! height_map self) (gt S to_add (h ! height_map self)) to_add,
               4 := masked_fill S (h ! sin_map self) (gt S to_add (h ! height_map self)) ((sin_a + 1) / 2),
               5 := masked_fill S (h ! cos_map self) (gt S to_add (h ! height_map self)) ((cos_a + 1) / 2),
               6 := h ! door_map self, 7 := h ! window_map self])"
  assumes wf: "wf h self" and sh: "is_shape S S to_add"
    and ci: "py_index (length (categories self) + k + 8) (8 + category) = Some ci"
  shows "add_and_get_composite h self to_add category sin_a cos_a k True =
     (Inr [length h ..< length h + (length (categories self) + k + 8)],
      h @ ys[ci := gadd S (ys ! ci) (patch_mask S to_add)])"
proof -
  have b: "room_mask self < length h" "wall_mask self < length h" "height_map self < length h"
    "sin_map self < length h" "cos_map self < length h" "door_map self < length h"
    "window_map self < length h"
    using wf_bounds(1)[OF wf] by simp_all
  have cl: "length (cat_map self) = length (categories self)" using wf by (simp add: wf_def)
  note cb = wf_cat_bound[OF wf]
  have src: "\<forall>i<length (categories self). cat_map self ! i < length h"
    using cb(2) cl by simp
  have cib: "ci < length (categories self) + k + 8" using ci by (rule py_index_Some)
  show ?thesis
    using b sh ci cib
    by (simp add: add_and_get_composite_def alloc_n_def Let_def list_update_append nth_append
        map_nth_append_old[OF cb(1)] fold_layers_append[OF src] S_def ys_def patch_mask_def)
qed

lemma add_and_get_composite_heap:
  assumes wf: "wf h self" and sh: "is_shape (size_S self) (size_S self) to_add"
    and ci: "py_index (length (categories self) + k + 8) (8 + category) = Some ci"
  shows "add_and_get_composite h self to_add category sin_a cos_a k True =
     (Inr [length h ..< length h + (length (categories self) + k + 8)],
      h @ (preview_layout h self to_add sin_a cos_a k)
            [ci := gadd (size_S self) (preview_layout h self to_add sin_a cos_a k ! ci)
                     (patch_mask (size_S self) to_add)])"
proof -
  have cl: "length (cat_map self) = length (categories self)" using wf by (simp add: wf_def)
  show ?thesis
    unfolding add_and_get_composite_heap0[OF wf sh ci] preview_layout_def
    by (simp only: suffix_layout[OF cl, where f = "\<lambda>a. h ! a"])
qed

lemma tabulate2_cong:
  "(\<And>i j. i < n \<Longrightarrow> j < m \<Longrightarrow> f i j = g i j) \<Longrightarrow> tabulate2 n m f = tabulate2 n m g"
  by (simp add: tabulate2_def)

lemma sum_list_update_add:
  "c < length xs \<Longrightarrow> sum_list (xs[c := xs ! c + (d::real)]) = sum_list xs + d"
proof (induction xs arbitrary: c)
  case Nil
  then show ?case by simp
next
  case (Cons x xs)
  then show ?case by (cases c) simp_all
qed

lemma gsum_update:
  assumes "c < length ls"
  shows "gsum S (ls[c := gadd S (ls ! c) m]) = gadd S (gsum S ls) m"
proof -
  have "sum_list (map (\<lambda>g. g ! i ! j) (ls[c := gadd S (ls ! c) m]))
      = sum_list (map (\<lambda>g. g ! i ! j) ls) + m ! i ! j"
    if "i < S" "j < S" for i j
  proof -
    have "map (\<lambda>g. g ! i ! j) (ls[c := gadd S (ls ! c) m])
        = (map (\<lambda>g. g ! i ! j) ls)[c := ls ! c ! i ! j + m ! i ! j]"
      using that by (simp add: map_update)
    then show ?thesis using assms sum_list_update_add[of c "map (\<lambda>g. g ! i ! j) ls" "m ! i ! j"]
      by simp
  qed
  then show ?thesis
    unfolding gsum_def gadd_def
    by (intro tabulate2_cong) simp
qed

lemma add_height_map_reads:
  fixes sin_a cos_a :: real
  assumes wf: "wf h self" and sh: "is_shape (size_S self) (size_S self) to_add"
    and c: "py_index (length (cat_map self)) category = Some c"
  defines "h1 \<equiv> snd (add_height_map h self to_add category sin_a cos_a)"
  shows "h1 ! height_map self = masked_copy (size_S self) (h ! height_map self)
            (gt (size_S self) to_add (h ! height_map self)) to_add"
    and "h1 ! sin_map self = masked_fill (size_S self) (h ! sin_map self)
            (gt (size_S self) to_add (h ! height_map self)) ((sin_a + 1) / 2)"
    and "h1 ! cos_map self = masked_fill (size_S self) (h ! cos_map self)
            (gt (size_S self) to_add (h ! height_map self)) ((cos_a + 1) / 2)"
    and "map (\<lambda>a. h1 ! a) (cat_map self)
          = (map (\<lambda>a. h ! a) (cat_map self))
              [c := gadd (size_S self) (h ! (cat_map self ! c)) (patch_mask (size_S self) to_add)]"
proof -
  have b: "height_map self < length h" "sin_map self < length h" "cos_map self < length h"
    using wf_bounds(1)[OF wf] by simp_all
  have cl: "c < length (cat_map self)" using c by (rule py_index_Some)
  have cb: "cat_map self ! c < length h"
    using wf_bounds(1)[OF wf, of "cat_map self ! c"] cl by simp
  have ne: "cat_map self ! c \<noteq> height_map self" "sin_map self \<noteq> height_map self"
    "cos_map self \<noteq> height_map self" "cat_map self ! c \<noteq> sin_map self"
    "cat_map self ! c \<noteq> cos_map self" "cos_map self \<noteq> sin_map self"
    using wf_distinct(1)[OF wf] wf_cat_fresh[OF wf cl] by auto
  show "h1 ! height_map self = masked_copy (size_S self) (h ! height_map self)
            (gt (size_S self) to_add (h ! height_map self)) to_add"
    using b ne unfolding h1_def by (simp add: add_height_map_ok[OF wf sh c])
  show "h1 ! sin_map self = masked_fill (size_S self) (h ! sin_map self)
            (gt (size_S self) to_add (h ! height_map self)) ((sin_a + 1) / 2)"
    using b ne unfolding h1_def by (simp add: add_height_map_ok[OF wf sh c])
  show "h1 ! cos_map self = masked_fill (size_S self) (h ! cos_map self)
            (gt (size_S self) to_add (h ! height_map self)) ((cos_a + 1) / 2)"
    using b ne unfolding h1_def by (simp add: add_height_map_ok[OF wf sh c])
  show "map (\<lambda>a. h1 ! a) (cat_map self)
          = (map (\<lambda>a. h ! a) (cat_map self))
              [c := gadd (size_S self) (h ! (cat_map self ! c)) (patch_mask (size_S self) to_add)]"
  proof (rule nth_equalityI)
    show "length (map (\<lambda>a. h1 ! a) (cat_map self))
        = length ((map (\<lambda>a. h ! a) (cat_map self))
              [c := gadd (size_S self) (h ! (cat_map self ! c)) (patch_mask (size_S self) to_add)])"
      by simp
  next
    fix d assume "d < length (map (\<lambda>a. h1 ! a) (cat_map self))"
    then have d: "d < length (cat_map self)" by simp
    have ned: "cat_map self ! d \<noteq> height_map self" "cat_map self ! d \<noteq> sin_map self"
      "cat_map self ! d \<noteq> cos_map self"
      using wf_cat_fresh[OF wf d] by auto
    have dc: "cat_map self ! c = cat_map self ! d \<longleftrightarrow> c = d"
      using wf_distinct(2)[OF wf] d cl by (simp add: nth_eq_iff_index_eq)
    have db: "cat_map self ! d < length h"
      using wf_bounds(1)[OF wf, of "cat_map self ! d"] d by simp
    have "h1 ! (cat_map self ! d)
        = (if c = d then gadd (size_S self) (h ! (cat_map self ! c)) (patch_mask (size_S self) to_add)
           else h ! (cat_map self ! d))"
      using cb db ned ne dc unfolding h1_def
      by (simp add: add_height_map_ok[OF wf sh c] patch_mask_def)
    then show "map (\<lambda>a. h1 ! a) (cat_map self) ! d
        = (map (\<lambda>a. h ! a) (cat_map self))
              [c := gadd (size_S self) (h ! (cat_map self ! c)) (patch_mask (size_S self) to_add)] ! d"
      using d cl by (simp add: nth_list_update)
  qed
qed

lemma preview_layout_update:
  assumes wf: "wf h self" and sh: "is_shape (size_S self) (size_S self) to_add"
    and c: "py_index (length (cat_map self)) category = Some c"
  shows "full_layout (snd (add_height_map h self to_add category sin_a cos_a)) self k
       = (preview_layout h self to_add sin_a cos_a k)
           [8 + c := gadd (size_S self) (preview_layout h self to_add sin_a cos_a k ! (8 + c))
                       (patch_mask (size_S self) to_add)]"
proof -
  define h1 where "h1 = snd (add_height_map h self to_add category sin_a cos_a)"
  define ls where "ls = map (\<lambda>a. h ! a) (cat_map self)"
  define pm where "pm = patch_mask (size_S self) to_add"
  define R where "R = replicate k (zeros (size_S self) (size_S self))"
  define pre where "pre = [h ! room_mask self, h ! wall_mask self,
      gadd (size_S self) (gsum (size_S self) ls) pm,
      masked_copy (size_S self) (h ! height_map self)
        (gt (size_S self) to_add (h ! height_map self)) to_add,
      masked_fill (size_S self) (h ! sin_map self)
        (gt (size_S self) to_add (h ! height_map self)) ((sin_a + 1) / 2),
      masked_fill (size_S self) (h ! cos_map self)
        (gt (size_S self) to_add (h ! height_map self)) ((cos_a + 1) / 2),
      h ! door_map self, h ! window_map self]"
  have lp: "length pre = 8" by (simp add: pre_def)
  have cl: "c < length ls" using py_index_Some[OF c] by (simp add: ls_def)
  have lsc: "ls ! c = h ! (cat_map self ! c)" using cl by (simp add: ls_def)
  note rd = add_height_map_reads[OF wf sh c, of sin_a cos_a, folded h1_def ls_def pm_def]
  have fr: "h1 ! room_mask self = h ! room_mask self" "h1 ! wall_mask self = h ! wall_mask self"
    "h1 ! door_map self = h ! door_map self" "h1 ! window_map self = h ! window_map self"
    unfolding h1_def by (simp_all add: add_height_map_frame[OF wf])
  have cats: "map (\<lambda>a. h1 ! a) (cat_map self) = ls[c := gadd (size_S self) (ls ! c) pm]"
    using rd(4) lsc by simp
  have sum: "gsum (size_S self) (ls[c := gadd (size_S self) (ls ! c) pm])
      = gadd (size_S self) (gsum (size_S self) ls) pm"
    by (rule gsum_update[OF cl])
  have l: "full_layout h1 self k = pre @ ls[c := gadd (size_S self) (ls ! c) pm] @ R"
    by (simp add: full_layout_def fr rd(1,2,3) cats sum pre_def R_def)
  have p: "preview_layout h self to_add sin_a cos_a k = pre @ ls @ R"
    by (simp add: preview_layout_def pre_def ls_def pm_def R_def)
  have "(pre @ ls @ R)[8 + c := gadd (size_S self) ((pre @ ls @ R) ! (8 + c)) pm]
      = pre @ ls[c := gadd (size_S self) (ls ! c) pm] @ R"
    using cl by (simp add: list_update_append nth_append lp)
  then show ?thesis
    using l p by (simp add: h1_def pm_def)
qed

lemma full_layout_shape:
  assumes "wf h self"
  shows "list_all (is_shape (size_S self) (size_S self)) (full_layout h self k)"
proof -
  note b = wf_bounds(2)[OF assms]
  have 1: "is_shape (size_S self) (size_S self) (h ! room_mask self)"
    "is_shape (size_S self) (size_S self) (h ! wall_mask self)"
    "is_shape (size_S self) (size_S self) (h ! height_map self)"
    "is_shape (size_S self) (size_S self) (h ! sin_map self)"
    "is_shape (size_S self) (size_S self) (h ! cos_map self)"
    "is_shape (size_S self) (size_S self) (h ! door_map self)"
    "is_shape (size_S self) (size_S self) (h ! window_map self)"
    by (simp_all add: b)
  have 2: "\<forall>a\<in>set (cat_map self). is_shape (size_S self) (size_S self) (h ! a)"
    using b by (simp add: addrs_def)
  show ?thesis
    using 1 2 by (simp add: full_layout_def list_all_iff ball_Un)
qed

lemma full_layout_first:
  "full_layout h self k ! 0 = h ! room_mask self"
  "full_layout h self k ! 1 = h ! wall_mask self"
  "full_layout h self k ! 2 = gsum (size_S self) (map (\<lambda>a. h ! a) (cat_map self))"
  "full_layout h self k ! 3 = h ! height_map self"
  "full_layout h self k ! 4 = h ! sin_map self"
  "full_layout h self k ! 5 = h ! cos_map self"
  "full_layout h self k ! 6 = h ! door_map self"
  "full_layout h self k ! 7 = h ! window_map self"
  by (simp_all add: full_layout_def)

lemma full_layout_rest:
  assumes cl: "length (cat_map self) = length (categories self)"
  shows "\<forall>i<length (categories self). full_layout h self k ! (8 + i) = h ! (cat_map self ! i)"
    and "\<forall>i<k. full_layout h self k ! (8 + length (categories self) + i)
                    = zeros (size_S self) (size_S self)"
proof -
  define pre where "pre = [h ! room_mask self, h ! wall_mask self,
      gsum (size_S self) (map (\<lambda>a. h ! a) (cat_map self)),
      h ! height_map self, h ! sin_map self, h ! cos_map self,
      h ! door_map self, h ! window_map self]"
  have lp: "length pre = 8" by (simp add: pre_def)
  have fl: "full_layout h self k
      = pre @ map (\<lambda>a. h ! a) (cat_map self) @ replicate k (zeros (size_S self) (size_S self))"
    by (simp add: full_layout_def pre_def)
  show "\<forall>i<length (categories self). full_layout h self k ! (8 + i) = h ! (cat_map self ! i)"
    using cl unfolding fl by (simp add: nth_append lp)
  show "\<forall>i<k. full_layout h self k ! (8 + length (categories self) + i)
                    = zeros (size_S self) (size_S self)"
    using cl unfolding fl by (simp add: nth_append lp)
qed

section \<open>Calls that only allocate\<close>

lemma get_composite_depth:
  assumes wf: "wf h self"
  shows "get_composite h self k (Some ''depth'') =
     (Inr [length h ..< length h + (1 + k)],
      h @ (h ! height_map self # replicate k (zeros (size_S self) (size_S self))))"
proof -
  have b: "height_map self < length h" using wf_bounds(1)[OF wf] by simp
  show ?thesis
    using b by (simp add: get_composite_def alloc_n_def Let_def list_update_append nth_append)
qed

lemma replicate6_update:
  "(replicate (6 + k) z)[0 := a0, 1 := a1, 2 := a2, 3 := a3, 4 := a4, 5 := a5]
     = [a0, a1, a2, a3, a4, a5] @ replicate k z"
proof -
  have "replicate (6 + k) z = [z, z, z, z, z, z] @ replicate k z"
    by (simp add: replicate_add eval_nat_numeral)
  then show ?thesis by simp
qed

lemma get_composite_basic0:
  assumes wf: "wf h self"
  shows "get_composite h self k (Some ''basic'') =
     (Inr [length h ..< length h + (6 + k)],
      h @ (replicate (6 + k) (zeros (size_S self) (size_S self)))
            [0 := h ! room_mask self, 1 := h ! wall_mask self,
             2 := gsum (size_S self) (map (\<lambda>a. h ! a) (cat_map self)),
             3 := h ! height_map self, 4 := h ! sin_map self, 5 := h ! cos_map self])"
proof -
  have b: "room_mask self < length h" "wall_mask self < length h" "height_map self < length h"
    "sin_map self < length h" "cos_map self < length h"
    using wf_bounds(1)[OF wf] by simp_all
  note cb = wf_cat_bound[OF wf]
  show ?thesis
    using b by (simp add: get_composite_def alloc_n_def Let_def list_update_append nth_append
        map_nth_append_old[OF cb(1)])
qed

lemma get_composite_basic:
  assumes wf: "wf h self"
  shows "get_composite h self k (Some ''basic'') =
     (Inr [length h ..< length h + (6 + k)],
      h @ [h ! room_mask self, h ! wall_mask self,
           gsum (size_S self) (map (\<lambda>a. h ! a) (cat_map self)),
           h ! height_map self, h ! sin_map self, h ! cos_map self]
        @ replicate k (zeros (size_S self) (size_S self)))"
  unfolding get_composite_basic0[OF wf] by (simp only: replicate6_update)

lemma get_composite_other:
  "ablation \<noteq> None \<Longrightarrow> ablation \<noteq> Some ''depth'' \<Longrightarrow> ablation \<noteq> Some ''basic'' \<Longrightarrow>
     get_composite h self k ablation = (Inl NotImplementedError, h)"
  by (simp add: get_composite_def Let_def del: not_None_eq)

lemma get_composite_returned_any:
  assumes wf: "wf h self"
  shows "returned (get_composite h self k ablation) = ablation_layout h self k ablation"
proof -
  consider "ablation = None" | "ablation = Some ''depth''" | "ablation = Some ''basic''"
    | "ablation \<noteq> None" "ablation \<noteq> Some ''depth''" "ablation \<noteq> Some ''basic''"
    by blast
  then show ?thesis
  proof cases
    case 1
    then show ?thesis using get_composite_returned[OF wf, of k] by (simp add: ablation_layout_def)
  next
    case 2
    have len: "1 + k = length (h ! height_map self # replicate k (zeros (size_S self) (size_S self)))"
      by simp
    have r: "returned (get_composite h self k (Some ''depth''))
        = Inr (h ! height_map self # replicate k (zeros (size_S self) (size_S self)))"
      unfolding get_composite_depth[OF wf]
      by (subst len) (rule returned_append)
    have al: "ablation_layout h self k (Some ''depth'')
        = Inr (h ! height_map self # replicate k (zeros (size_S self) (size_S self)))"
      by (simp add: ablation_layout_def)
    show ?thesis by (simp only: 2 r al)
  next
    case 3
    have len: "6 + k = length ([h ! room_mask self, h ! wall_mask self,
                 gsum (size_S self) (map (\<lambda>a. h ! a) (cat_map self)),
                 h ! height_map self, h ! sin_map self, h ! cos_map self]
                @ replicate k (zeros (size_S self) (size_S self)))"
      by simp
    have r: "returned (get_composite h self k (Some ''basic''))
        = Inr ([h ! room_mask self, h ! wall_mask self,
                 gsum (size_S self) (map (\<lambda>a. h ! a) (cat_map self)),
                 h ! height_map self, h ! sin_map self, h ! cos_map self]
                @ replicate k (zeros (size_S self) (size_S self)))"
      unfolding get_composite_basic[OF wf]
      by (subst len) (rule returned_append)
    have al: "ablation_layout h self k (Some ''basic'')
        = Inr ([h ! room_mask self, h ! wall_mask self,
                 gsum (size_S self) (map (\<lambda>a. h ! a) (cat_map self)),
                 h ! height_map self, h ! sin_map self, h ! cos_map self]
                @ replicate k (zeros (size_S self) (size_S self)))"
      by (simp add: ablation_layout_def)
    show ?thesis by (simp only: 3 r al)
  next
    case 4
    then show ?thesis
      by (simp add: ablation_layout_def get_composite_other returned_def)
  qed
qed

lemma wf_append:
  assumes "wf h self"
  shows "wf (h @ ys) self"
proof -
  have "a < length (h @ ys) \<and> is_shape (size_S self) (size_S self) ((h @ ys) ! a)"
    if "a \<in> set (addrs self)" for a
    using wf_bounds[OF assms that] by (simp add: nth_append)
  then show ?thesis using assms by (simp add: wf_def list_all_iff)
qed

lemma ablation_layout_append:
  assumes wf: "wf h self"
  shows "ablation_layout (h @ ys) self k ablation = ablation_layout h self k ablation"
proof -
  have b: "(h @ ys) ! room_mask self = h ! room_mask self"
    "(h @ ys) ! wall_mask self = h ! wall_mask self"
    "(h @ ys) ! height_map self = h ! height_map self"
    "(h @ ys) ! sin_map self = h ! sin_map self"
    "(h @ ys) ! cos_map self = h ! cos_map self"
    "(h @ ys) ! door_map self = h ! door_map self"
    "(h @ ys) ! window_map self = h ! window_map self"
    using wf_bounds(1)[OF wf] by (simp_all add: nth_append)
  have m: "map (\<lambda>a. (h @ ys) ! a) (cat_map self) = map (\<lambda>a. h ! a) (cat_map self)"
    by (rule map_nth_append_old[OF wf_cat_bound(1)[OF wf]])
  show ?thesis
    by (simp only: ablation_layout_def full_layout_def b m)
qed

lemma add_and_get_composite_not_temporary:
  "add_and_get_composite h self to_add category sin_a cos_a k False = (Inl NotImplementedError, h)"
  by (simp add: add_and_get_composite_def)

lemma add_and_get_composite_bad_shape:
  "\<not> is_shape (size_S self) (size_S self) to_add \<Longrightarrow>
     add_and_get_composite h self to_add category sin_a cos_a k temporary
       = (if temporary then Inl RuntimeError else Inl NotImplementedError, h)"
  by (simp add: add_and_get_composite_def)

lemma add_and_get_composite_bad_index:
  assumes "is_shape (size_S self) (size_S self) to_add"
    and "py_index (length (categories self) + k + 8) (8 + category) = None"
  shows "add_and_get_composite h self to_add category sin_a cos_a k True = (Inl IndexError, h)"
  using assms by (simp add: add_and_get_composite_def alloc_n_def Let_def)

lemma add_and_get_composite_extends:
  assumes wf: "wf h self"
  shows "\<exists>ys. snd (add_and_get_composite h self to_add category sin_a cos_a k temporary) = h @ ys"
proof (cases temporary)
  case False
  then show ?thesis by (simp add: add_and_get_composite_not_temporary)
next
  case t: True
  show ?thesis
  proof (cases "is_shape (size_S self) (size_S self) to_add")
    case False
    then show ?thesis by (simp add: add_and_get_composite_bad_shape)
  next
    case sh: True
    show ?thesis
    proof (cases "py_index (length (categories self) + k + 8) (8 + category)")
      case None
      then show ?thesis using t by (simp add: add_and_get_composite_bad_index[OF sh None])
    next
      case (Some ci)
      show ?thesis using t by (simp add: add_and_get_composite_heap[OF wf sh Some])
    qed
  qed
qed

lemma preview_calls_extends:
  assumes "wf h self"
  shows "\<exists>ys. preview_calls h self calls = h @ ys"
  using assms
proof (induction calls arbitrary: h)
  case Nil
  then show ?case by simp
next
  case (Cons call calls)
  obtain to_add category sin_a cos_a k where call: "call = (to_add, category, sin_a, cos_a, k)"
    by (cases call) auto
  obtain ys where ys: "snd (add_and_get_composite h self to_add category sin_a cos_a k True) = h @ ys"
    using add_and_get_composite_extends[OF Cons.prems] by blast
  have "wf (h @ ys) self" by (rule wf_append[OF Cons.prems])
  then obtain zs where "preview_calls (h @ ys) self calls = (h @ ys) @ zs"
    using Cons.IH by blast
  then show ?case using call ys by simp
qed

section \<open>Successful placements\<close>

lemma preview_returned:
  assumes "wf h self" and "is_shape (size_S self) (size_S self) to_add"
    and "0 \<le> category" and "category < int (length (categories self))"
  shows "returned (add_and_get_composite h self to_add category sin_a cos_a k True)
           = Inr (full_layout (snd (add_height_map h self to_add category sin_a cos_a)) self k)"
proof -
  have cl: "length (cat_map self) = length (categories self)" using assms(1) by (simp add: wf_def)
  have c: "py_index (length (cat_map self)) category = Some (nat category)"
    using assms(3,4) cl by (simp add: py_index_def)
  have ci: "py_index (length (categories self) + k + 8) (8 + category) = Some (8 + nat category)"
    using assms(3,4) by (simp add: py_index_def nat_add_distrib)
  have len: "length (categories self) + k + 8
      = length ((preview_layout h self to_add sin_a cos_a k)
           [8 + nat category := gadd (size_S self)
              (preview_layout h self to_add sin_a cos_a k ! (8 + nat category))
              (patch_mask (size_S self) to_add)])"
    using cl by (simp add: preview_layout_def)
  have "returned (add_and_get_composite h self to_add category sin_a cos_a k True)
      = Inr ((preview_layout h self to_add sin_a cos_a k)
           [8 + nat category := gadd (size_S self)
              (preview_layout h self to_add sin_a cos_a k ! (8 + nat category))
              (patch_mask (size_S self) to_add)])"
    unfolding add_and_get_composite_heap[OF assms(1,2) ci] len by (rule returned_append)
  then show ?thesis
    by (simp only: preview_layout_update[OF assms(1,2) c])
qed

lemma py_index_category:
  assumes "wf h self" and "0 \<le> category" and "category < int (length (categories self))"
  shows "py_index (length (cat_map self)) category = Some (nat category)"
  using assms by (simp add: py_index_def wf_def)





lemma full_layout_cat:
  assumes "wf h self" and "d < length (cat_map self)"
  shows "full_layout h self k ! (8 + d) = h ! (cat_map self ! d)"
proof -
  have cl: "length (cat_map self) = length (categories self)" using assms(1) by (simp add: wf_def)
  show ?thesis using full_layout_rest(1)[OF cl, where h = h and k = k] assms(2) cl by simp
qed

section \<open>Pasting a patch\<close>

lemma slice_len_overflow:
  assumes "S < lo + n" and "2 \<le> n"
  shows "slice_len S lo n \<noteq> n"
  unfolding slice_len_def using assms by arith

lemma paste_overflow_rows:
  assumes "S < xmin + nrows hm" and "2 \<le> nrows hm"
  shows "paste S to_add xmin (nrows hm) ymin ysize hm = Inl RuntimeError"
  using slice_len_overflow[OF assms] assms(2) by (simp add: paste_def Let_def)

lemma paste_overflow_cols:
  assumes "S < ymin + ncols hm" and "2 \<le> ncols hm"
  shows "paste S to_add xmin xsize ymin (ncols hm) hm = Inl RuntimeError"
  using slice_len_overflow[OF assms] assms(2) by (simp add: paste_def Let_def)

lemma paste_error: "paste S to_add xmin xsize ymin ysize hm = Inl e \<Longrightarrow> e = RuntimeError"
  by (simp add: paste_def Let_def split: if_splits)

lemma node_to_add_overflow:
  assumes "overflows S (n_height_map node) (n_bbox_min node)"
  shows "node_to_add S node = Inl RuntimeError"
  using assms unfolding overflows_def node_to_add_def
  by (auto simp add: paste_overflow_rows paste_overflow_cols)

lemma node_to_add_error: "node_to_add S node = Inl e \<Longrightarrow> e = RuntimeError"
  unfolding node_to_add_def by (rule paste_error)

lemma init_door_windows_step:
  "init_door_windows h self (node # nodes) =
     (case node_to_add (size_S self) node of
        Inl e \<Rightarrow> (Inl e, h)
      | Inr to_add \<Rightarrow>
          (let S = size_S self;
               update = gt S to_add (h ! height_map self);
               h1 = h[height_map self := masked_copy S (h ! height_map self) update to_add];
               h2 = h1[wall_mask self := masked_fill S (h1 ! wall_mask self) (gt0 S to_add) 1];
               m = masked_fill S to_add (gt0 S to_add) (1/2)
           in if n_category node = ''door''
              then init_door_windows (h2 @ [gadd S (h2 ! door_map self) m])
                     (self\<lparr>door_map := length h2\<rparr>) nodes
              else init_door_windows (h2 @ [gadd S (h2 ! window_map self) m])
                     (self\<lparr>window_map := length h2\<rparr>) nodes))"
  by (simp add: node_to_add_def clamp_offset_def Let_def alloc_def split: sum.splits)

lemma init_door_windows_next:
  assumes "node_to_add (size_S self) node = Inr to_add"
  shows "\<exists>h' self'. init_door_windows h self (node # nodes) = init_door_windows h' self' nodes
           \<and> size_S self' = size_S self"
proof (cases "n_category node = ''door''")
  case True
  then show ?thesis
    unfolding init_door_windows_step assms
    by (simp only: sum.case Let_def simp_thms if_True) (rule exI, rule exI, rule conjI, rule refl, simp)
next
  case False
  then show ?thesis
    unfolding init_door_windows_step assms
    by (simp only: sum.case Let_def simp_thms if_False) (rule exI, rule exI, rule conjI, rule refl, simp)
qed

lemma init_door_windows_overflow:
  assumes "\<exists>d\<in>set nodes. overflows (size_S self) (n_height_map d) (n_bbox_min d)"
  shows "fst (init_door_windows h self nodes) = Inl RuntimeError"
  using assms
proof (induction nodes arbitrary: h self)
  case Nil
  then show ?case by simp
next
  case (Cons node nodes)
  show ?case
  proof (cases "node_to_add (size_S self) node")
    case (Inl e)
    then have "e = RuntimeError" by (rule node_to_add_error)
    then show ?thesis using Inl by (simp add: init_door_windows_step del: init_door_windows.simps)
  next
    case (Inr to_add)
    then have "\<not> overflows (size_S self) (n_height_map node) (n_bbox_min node)"
      using node_to_add_overflow[of "size_S self" node] by auto
    then have rest: "\<exists>d\<in>set nodes. overflows (size_S self) (n_height_map d) (n_bbox_min d)"
      using Cons.prems by auto
    obtain h' self' where
      eq: "init_door_windows h self (node # nodes) = init_door_windows h' self' nodes"
      and S: "size_S self' = size_S self"
      using init_door_windows_next[OF Inr] by blast
    show ?thesis using Cons.IH[of self' h'] rest S by (simp only: eq)
  qed
qed

lemma RenderedComposite_init_loop:
  "\<exists>h' self'. RenderedComposite_init h cats floor_g wall nodes = init_door_windows h' self' nodes
     \<and> size_S self' = nrows floor_g"
  unfolding RenderedComposite_init_def Let_def alloc_def alloc_n_def
  by (simp only: prod.case) (rule exI, rule exI, rule conjI, rule refl, simp)

lemma add_node_overflow:
  assumes "overflows (size_S self) (n_height_map node) (n_bbox_min node)"
  shows "add_node h self node = (Inl RuntimeError, h)"
  by (simp add: add_node_unfold node_to_add_overflow[OF assms])

section \<open>The offset of a full-size patch\<close>

lemma clamp_offset_256 [simp]: "clamp_offset 256 x = 0"
  by (simp add: clamp_offset_def)

lemma clamp_offset_nonneg: "n \<noteq> 256 \<Longrightarrow> clamp_offset n x = nat \<lfloor>x\<rfloor>"
  by (simp add: clamp_offset_def)

lemma node_to_add_256_rows:
  "nrows (n_height_map node) = 256 \<Longrightarrow>
     node_to_add S node =
       paste S (zeros S S) 0 256
         (clamp_offset (ncols (n_height_map node)) (snd (snd (n_bbox_min node))))
         (ncols (n_height_map node)) (n_height_map node)"
  by (simp add: node_to_add_def)

lemma node_to_add_256_cols:
  "ncols (n_height_map node) = 256 \<Longrightarrow>
     node_to_add S node =
       paste S (zeros S S)
         (clamp_offset (nrows (n_height_map node)) (fst (n_bbox_min node)))
         (nrows (n_height_map node)) 0 256 (n_height_map node)"
  by (simp add: node_to_add_def)

lemma add_node_obb_unfold:
  "add_node_obb h self node =
     (case paste (size_S self) (zeros (size_S self) (size_S self))
             (nat (max 0 \<lfloor>fst (n_bbox_min_obb node)\<rfloor>)) (nrows (n_height_map_obb node))
             (nat (max 0 \<lfloor>snd (snd (n_bbox_min_obb node))\<rfloor>)) (ncols (n_height_map_obb node))
             (n_height_map_obb node) of
        Inl e \<Rightarrow> (Inl e, h)
      | Inr to_add \<Rightarrow>
          (case get_transformation (n_transform node) of
             Inl e \<Rightarrow> (Inl e, h)
           | Inr (sin_a, cos_a) \<Rightarrow> add_height_map h self to_add (n_category node) sin_a cos_a))"
  by (simp add: add_node_obb_def Let_def)

lemma ncols_replicate: "0 < n \<Longrightarrow> ncols (replicate n r) = length r"
  by (cases n) (simp_all add: ncols_def)

lemma nrows_replicate [simp]: "nrows (replicate n r) = n"
  by (simp add: nrows_def)

lemma wf_ex_big: "wf ex_big_heap ex_big_self"
  by (simp add: wf_def addrs_def ex_big_heap_def ex_big_self_def)

section \<open>The order of the furniture records\<close>

lemma load_nodes_ids:
  "load_nodes gfc c2i lo nodes objs dws = Inr (objs', dws') \<Longrightarrow>
     map n_modelId objs' =
       map n_modelId objs
       @ (if lo then filter (\<lambda>m. gfc m \<notin> {''door'', ''window''}) (map n_modelId nodes) else [])"
proof (induction nodes arbitrary: objs dws)
  case Nil
  then show ?case by simp
next
  case (Cons node nodes)
  show ?case
  proof (cases "gfc (n_modelId node) \<in> {''door'', ''window''}")
    case True
    then have "load_nodes gfc c2i lo nodes objs (dws @ [set_category node (gfc (n_modelId node))])
        = Inr (objs', dws')"
      using Cons.prems by (simp add: Let_def)
    from Cons.IH[OF this] show ?thesis using True by auto
  next
    case nd: False
    show ?thesis
    proof (cases lo)
      case False
      then have "load_nodes gfc c2i lo nodes objs dws = Inr (objs', dws')"
        using Cons.prems nd by (simp add: Let_def)
      from Cons.IH[OF this] show ?thesis using False by simp
    next
      case True
      then obtain i where i: "c2i (gfc (n_modelId node)) = Some i"
        using Cons.prems nd by (cases "c2i (gfc (n_modelId node))") (simp_all add: Let_def)
      then have "load_nodes gfc c2i lo nodes (objs @ [set_category node i]) dws = Inr (objs', dws')"
        using Cons.prems nd True by (simp add: Let_def)
      from Cons.IH[OF this] show ?thesis using True nd by (simp add: set_category_def)
    qed
  qed
qed

lemma RenderedScene_init_seeded:
  "s \<noteq> 0 \<Longrightarrow>
     RenderedScene_init rs sh gfc c2i rng nodes shuffle lo (Some s)
       = RenderedScene_init rs sh gfc c2i (rs s) nodes shuffle lo None"
  by (simp add: RenderedScene_init_def)

lemma RenderedScene_init_seeded_deterministic:
  "s \<noteq> 0 \<Longrightarrow>
     RenderedScene_init rs sh gfc c2i rng1 nodes shuffle lo (Some s)
       = RenderedScene_init rs sh gfc c2i rng2 nodes shuffle lo (Some s)"
  by (simp add: RenderedScene_init_seeded)

lemma RenderedScene_init_no_shuffle:
  "fst (RenderedScene_init rs sh gfc c2i rng nodes False lo seed) = load_nodes gfc c2i lo nodes [] []"
  by (simp add: RenderedScene_init_def Let_def split: sum.splits prod.splits)

lemma RenderedScene_init_no_shuffle_order:
  assumes "fst (RenderedScene_init rs sh gfc c2i rng nodes False True seed) = Inr (objs, dws)"
  shows "map n_modelId objs = filter (\<lambda>m. gfc m \<notin> {''door'', ''window''}) (map n_modelId nodes)"
  using load_nodes_ids[of gfc c2i True nodes "[]" "[]" objs dws] assms
  by (simp add: RenderedScene_init_no_shuffle)

section \<open>Claims about the composite builder\<close>

text \<open>
  C1 (height-wins monotonicity). On a well-formed builder, every call of \<^verbatim>\<open>add_height_map\<close>,
  of \<^verbatim>\<open>add_node\<close> and every run of \<^verbatim>\<open>add_nodes\<close> over a list of records, whether it
  returns or raises, leaves \<^verbatim>\<open>height_map\<close> at every cell at least as high as it was; and
  \<^verbatim>\<open>add_height_map\<close> changes the height of a cell only where the value of \<^verbatim>\<open>to_add\<close> at
  that cell is strictly greater than the old height, and then to that value.
\<close>
theorem height_wins_monotone:
  assumes "wf h self" and "i < size_S self" and "j < size_S self"
  shows "h ! height_map self ! i ! j
           \<le> snd (add_height_map h self to_add category sin_a cos_a) ! height_map self ! i ! j
       \<and> (snd (add_height_map h self to_add category sin_a cos_a) ! height_map self ! i ! j
             \<noteq> h ! height_map self ! i ! j \<longrightarrow>
           h ! height_map self ! i ! j < to_add ! i ! j
           \<and> snd (add_height_map h self to_add category sin_a cos_a) ! height_map self ! i ! j
               = to_add ! i ! j)
       \<and> h ! height_map self ! i ! j \<le> snd (add_node h self node) ! height_map self ! i ! j
       \<and> h ! height_map self ! i ! j \<le> snd (add_nodes h self nodes) ! height_map self ! i ! j"
proof -
  have "h ! height_map self ! i ! j
       \<le> snd (add_height_map h self to_add category sin_a cos_a) ! height_map self ! i ! j"
    by (rule add_height_map_mono[OF assms])
  moreover have "snd (add_height_map h self to_add category sin_a cos_a) ! height_map self ! i ! j
             \<noteq> h ! height_map self ! i ! j \<longrightarrow>
           h ! height_map self ! i ! j < to_add ! i ! j
           \<and> snd (add_height_map h self to_add category sin_a cos_a) ! height_map self ! i ! j
               = to_add ! i ! j"
    by (simp add: add_height_map_height[OF assms])
  moreover have "h ! height_map self ! i ! j \<le> snd (add_node h self node) ! height_map self ! i ! j"
    by (rule add_node_mono[OF assms])
  moreover have "h ! height_map self ! i ! j \<le> snd (add_nodes h self nodes) ! height_map self ! i ! j"
    by (rule add_nodes_mono[OF assms])
  ultimately show ?thesis by blast
qed

theorem height_wins_monotone_witness:
  "wf ex_heap ex_self \<and> (0::nat) < size_S ex_self
   \<and> ex_heap ! height_map ex_self ! 0 ! 0 = 3
   \<and> snd (add_height_map ex_heap ex_self [[4, 0], [1, 0]] 0 0 1) ! height_map ex_self ! 0 ! 0 = 4
   \<and> snd (add_height_map ex_heap ex_self [[4, 0], [1, 0]] 0 0 1) ! height_map ex_self ! 0 ! 0
        \<noteq> ex_heap ! height_map ex_self ! 0 ! 0
   \<and> ex_heap ! height_map ex_self ! 0 ! 0 < [[4, 0], [1, 0]] ! 0 ! 0
   \<and> ex_heap ! height_map ex_self ! 0 ! 0
        \<le> snd (add_node ex_heap ex_self ex_node) ! height_map ex_self ! 0 ! 0
   \<and> ex_heap ! height_map ex_self ! 0 ! 0
        \<le> snd (add_nodes ex_heap ex_self [ex_node, ex_node]) ! height_map ex_self ! 0 ! 0"
proof -
  have w: "wf ex_heap ex_self" by code_simp
  have i: "(0::nat) < size_S ex_self" by (simp add: ex_self_def)
  have old: "ex_heap ! height_map ex_self ! 0 ! 0 = 3" by (simp add: ex_heap_def ex_self_def)
  have new: "snd (add_height_map ex_heap ex_self [[4, 0], [1, 0]] 0 0 1) ! height_map ex_self ! 0 ! 0 = 4"
    by code_simp
  show ?thesis
    using height_wins_monotone[OF w i i, of "[[4, 0], [1, 0]]" 0 0 1 ex_node "[ex_node, ex_node]"]
      w i old new by simp
qed

text \<open>
  C5 (channel layout). On a well-formed builder over \<open>C\<close> categories, \<^verbatim>\<open>get_composite\<close> with
  \<^verbatim>\<open>ablation=None\<close> and \<open>k\<close> extra channels returns normally a tensor of exactly \<open>8 + C + k\<close>
  channels, each of shape \<open>S\<times>S\<close>: channel 0 is \<^verbatim>\<open>room_mask\<close>, 1 \<^verbatim>\<open>wall_mask\<close>, 2 the sum of the
  layers of \<^verbatim>\<open>cat_map\<close> (at every cell, the sum over all categories of the values of the
  layers at that cell), 3 \<^verbatim>\<open>height_map\<close>, 4 \<^verbatim>\<open>sin_map\<close>, 5 \<^verbatim>\<open>cos_map\<close>, 6 \<^verbatim>\<open>door_map\<close>,
  7 \<^verbatim>\<open>window_map\<close>, channel \<open>8 + i\<close> is layer \<open>i\<close> of \<^verbatim>\<open>cat_map\<close>, and the last \<open>k\<close> channels
  are zero.
\<close>
theorem channel_layout:
  assumes "wf h self"
  shows "returned (get_composite h self k None) = Inr (full_layout h self k)
       \<and> length (full_layout h self k) = 8 + length (categories self) + k
       \<and> list_all (is_shape (size_S self) (size_S self)) (full_layout h self k)
       \<and> full_layout h self k ! 0 = h ! room_mask self
       \<and> full_layout h self k ! 1 = h ! wall_mask self
       \<and> full_layout h self k ! 2 = gsum (size_S self) (map (\<lambda>a. h ! a) (cat_map self))
       \<and> (\<forall>i<size_S self. \<forall>j<size_S self.
             full_layout h self k ! 2 ! i ! j = sum_list (map (\<lambda>a. h ! a ! i ! j) (cat_map self)))
       \<and> full_layout h self k ! 3 = h ! height_map self
       \<and> full_layout h self k ! 4 = h ! sin_map self
       \<and> full_layout h self k ! 5 = h ! cos_map self
       \<and> full_layout h self k ! 6 = h ! door_map self
       \<and> full_layout h self k ! 7 = h ! window_map self
       \<and> (\<forall>i<length (categories self). full_layout h self k ! (8 + i) = h ! (cat_map self ! i))
       \<and> (\<forall>i<k. full_layout h self k ! (8 + length (categories self) + i)
                    = zeros (size_S self) (size_S self))
       \<and> (\<forall>c<k. \<forall>i<size_S self. \<forall>j<size_S self.
             full_layout h self k ! (8 + length (categories self) + c) ! i ! j = 0)"
proof -
  have cl: "length (cat_map self) = length (categories self)" using assms by (simp add: wf_def)
  have r: "returned (get_composite h self k None) = Inr (full_layout h self k)"
    by (rule get_composite_returned[OF assms])
  have l: "length (full_layout h self k) = 8 + length (categories self) + k"
    using cl by simp
  have s: "\<forall>i<size_S self. \<forall>j<size_S self.
             full_layout h self k ! 2 ! i ! j = sum_list (map (\<lambda>a. h ! a ! i ! j) (cat_map self))"
    by (simp add: full_layout_first(3) comp_def)
  note rest = full_layout_rest[OF cl, where h = h and k = k]
  have z: "\<forall>c<k. \<forall>i<size_S self. \<forall>j<size_S self.
             full_layout h self k ! (8 + length (categories self) + c) ! i ! j = 0"
    using rest(2) by simp
  show ?thesis
    using r l full_layout_shape[OF assms, of k] full_layout_first[of h self k] s rest z
    by (intro conjI) assumption+
qed

theorem channel_layout_witness:
  "wf ex2_heap ex2_self
   \<and> returned (get_composite ex2_heap ex2_self 1 None)
       = Inr [[[1, 1], [1, 0]], [[1/2, 0], [1, 1]], [[1, 1], [0, 1/2]], [[3, 1], [2, 5]],
              [[1/4, 0], [0, 1]], [[3/4, 0], [1, 1/2]], [[0, 0], [1/2, 0]], [[0, 0], [0, 1/2]],
              [[1/2, 0], [0, 0]], [[1/2, 1], [0, 1/2]], [[0, 0], [0, 0]]]
   \<and> length (full_layout ex2_heap ex2_self 1) = 8 + length (categories ex2_self) + 1
   \<and> (0::nat) < size_S ex2_self
   \<and> full_layout ex2_heap ex2_self 1 ! 2 ! 0 ! 0
       = sum_list (map (\<lambda>a. ex2_heap ! a ! 0 ! 0) (cat_map ex2_self))
   \<and> sum_list (map (\<lambda>a. ex2_heap ! a ! 0 ! 0) (cat_map ex2_self)) = 1
   \<and> (1::nat) < length (categories ex2_self)
   \<and> full_layout ex2_heap ex2_self 1 ! (8 + 1) = ex2_heap ! (cat_map ex2_self ! 1)
   \<and> ex2_heap ! (cat_map ex2_self ! 1) = [[1/2, 1], [0, 1/2]]
   \<and> (0::nat) < 1
   \<and> full_layout ex2_heap ex2_self 1 ! (8 + length (categories ex2_self) + 0)
       = zeros (size_S ex2_self) (size_S ex2_self)
   \<and> full_layout ex2_heap ex2_self 1 ! (8 + length (categories ex2_self) + 0) ! 0 ! 0 = 0"
proof -
  have w: "wf ex2_heap ex2_self" by code_simp
  note t = channel_layout[OF w, of 1]
  have f: "full_layout ex2_heap ex2_self 1
       = [[[1, 1], [1, 0]], [[1/2, 0], [1, 1]], [[1, 1], [0, 1/2]], [[3, 1], [2, 5]],
              [[1/4, 0], [0, 1]], [[3/4, 0], [1, 1/2]], [[0, 0], [1/2, 0]], [[0, 0], [0, 1/2]],
              [[1/2, 0], [0, 0]], [[1/2, 1], [0, 1/2]], [[0, 0], [0, 0]]]"
    by code_simp
  have i: "(0::nat) < size_S ex2_self" by (simp add: ex2_self_def)
  have c: "(1::nat) < length (categories ex2_self)" by (simp add: ex2_self_def)
  have k: "(0::nat) < 1" by simp
  have sm: "sum_list (map (\<lambda>a. ex2_heap ! a ! 0 ! 0) (cat_map ex2_self)) = 1"
    by (simp add: ex2_heap_def ex2_self_def)
  have l1: "ex2_heap ! (cat_map ex2_self ! 1) = [[1/2, 1], [0, 1/2]]"
    by (simp add: ex2_heap_def ex2_self_def)
  have r0: "returned (get_composite ex2_heap ex2_self 1 None) = Inr (full_layout ex2_heap ex2_self 1)"
    and l: "length (full_layout ex2_heap ex2_self 1) = 8 + length (categories ex2_self) + 1"
    and p: "\<forall>i<size_S ex2_self. \<forall>j<size_S ex2_self.
             full_layout ex2_heap ex2_self 1 ! 2 ! i ! j
               = sum_list (map (\<lambda>a. ex2_heap ! a ! i ! j) (cat_map ex2_self))"
    and q: "\<forall>i<length (categories ex2_self).
             full_layout ex2_heap ex2_self 1 ! (8 + i) = ex2_heap ! (cat_map ex2_self ! i)"
    and e: "\<forall>i<1. full_layout ex2_heap ex2_self 1 ! (8 + length (categories ex2_self) + i)
                    = zeros (size_S ex2_self) (size_S ex2_self)"
    and e0: "\<forall>c<1. \<forall>i<size_S ex2_self. \<forall>j<size_S ex2_self.
             full_layout ex2_heap ex2_self 1 ! (8 + length (categories ex2_self) + c) ! i ! j = 0"
    using t by - (elim conjE, assumption)+
  have r: "returned (get_composite ex2_heap ex2_self 1 None)
       = Inr [[[1, 1], [1, 0]], [[1/2, 0], [1, 1]], [[1, 1], [0, 1/2]], [[3, 1], [2, 5]],
              [[1/4, 0], [0, 1]], [[3/4, 0], [1, 1/2]], [[0, 0], [1/2, 0]], [[0, 0], [0, 1/2]],
              [[1/2, 0], [0, 0]], [[1/2, 1], [0, 1/2]], [[0, 0], [0, 0]]]"
    using r0 by (simp only: f)
  have s: "full_layout ex2_heap ex2_self 1 ! 2 ! 0 ! 0
       = sum_list (map (\<lambda>a. ex2_heap ! a ! 0 ! 0) (cat_map ex2_self))"
    using p i by blast
  have a: "full_layout ex2_heap ex2_self 1 ! (8 + 1) = ex2_heap ! (cat_map ex2_self ! 1)"
    using q c by blast
  have z: "full_layout ex2_heap ex2_self 1 ! (8 + length (categories ex2_self) + 0)
       = zeros (size_S ex2_self) (size_S ex2_self)"
    using e k by blast
  have z0: "full_layout ex2_heap ex2_self 1 ! (8 + length (categories ex2_self) + 0) ! 0 ! 0 = 0"
    using e0 k i by blast
  show ?thesis
    using w r l i s sm c a l1 k z z0 by (intro conjI) assumption+
qed

text \<open>
  C4 (preview equivalence). On a well-formed builder, for an \<open>S\<times>S\<close> patch \<^verbatim>\<open>to_add\<close>, a
  category index \<open>0 \<le> category < C\<close>, any \<^verbatim>\<open>sin\<close>, \<^verbatim>\<open>cos\<close> and any number \<open>k\<close> of extra
  channels, the tensor that \<^verbatim>\<open>add_and_get_composite\<close> returns is the tensor that
  \<^verbatim>\<open>get_composite(k, None)\<close> returns after \<^verbatim>\<open>add_height_map\<close> has been applied to the same
  store (the store is a value, so the second run works on a copy of the builder), and that
  \<^verbatim>\<open>add_height_map\<close> call returns normally.
\<close>

theorem preview_equivalence:
  assumes "wf h self" and "is_shape (size_S self) (size_S self) to_add"
    and "0 \<le> category" and "category < int (length (categories self))"
  shows "fst (add_height_map h self to_add category sin_a cos_a) = Inr ()
       \<and> returned (add_and_get_composite h self to_add category sin_a cos_a k True)
           = Inr (full_layout (snd (add_height_map h self to_add category sin_a cos_a)) self k)
       \<and> returned (get_composite (snd (add_height_map h self to_add category sin_a cos_a)) self k None)
           = Inr (full_layout (snd (add_height_map h self to_add category sin_a cos_a)) self k)"
proof -
  have c: "py_index (length (cat_map self)) category = Some (nat category)"
    by (rule py_index_category[OF assms(1,3,4)])
  have ok: "fst (add_height_map h self to_add category sin_a cos_a) = Inr ()"
    by (simp add: add_height_map_ok[OF assms(1,2) c])
  have pv: "returned (add_and_get_composite h self to_add category sin_a cos_a k True)
      = Inr (full_layout (snd (add_height_map h self to_add category sin_a cos_a)) self k)"
    by (rule preview_returned[OF assms])
  have gc: "returned (get_composite (snd (add_height_map h self to_add category sin_a cos_a)) self k None)
      = Inr (full_layout (snd (add_height_map h self to_add category sin_a cos_a)) self k)"
    by (rule get_composite_returned[OF add_height_map_wf[OF assms(1)]])
  show ?thesis using ok pv gc by simp
qed

theorem preview_equivalence_witness:
  "wf ex_heap ex_self \<and> is_shape (size_S ex_self) (size_S ex_self) [[4, 0], [1, 0]]
   \<and> (0::int) \<le> 0 \<and> (0::int) < int (length (categories ex_self))
   \<and> fst (add_height_map ex_heap ex_self [[4, 0], [1, 0]] 0 0 1) = Inr ()
   \<and> returned (add_and_get_composite ex_heap ex_self [[4, 0], [1, 0]] 0 0 1 1 True)
       = Inr [[[1, 1], [1, 0]], [[1/2, 0], [0, 0]], [[1/2, 0], [1/2, 0]], [[4, 1], [2, 0]],
              [[1/2, 0], [0, 0]], [[1, 0], [0, 0]], [[0, 0], [0, 0]], [[0, 0], [0, 0]],
              [[1/2, 0], [1/2, 0]], [[0, 0], [0, 0]]]
   \<and> returned (get_composite (snd (add_height_map ex_heap ex_self [[4, 0], [1, 0]] 0 0 1))
                     ex_self 1 None)
       = Inr [[[1, 1], [1, 0]], [[1/2, 0], [0, 0]], [[1/2, 0], [1/2, 0]], [[4, 1], [2, 0]],
              [[1/2, 0], [0, 0]], [[1, 0], [0, 0]], [[0, 0], [0, 0]], [[0, 0], [0, 0]],
              [[1/2, 0], [1/2, 0]], [[0, 0], [0, 0]]]"
proof -
  have w: "wf ex_heap ex_self" by code_simp
  have s: "is_shape (size_S ex_self) (size_S ex_self) [[4, 0], [1, 0]]" by code_simp
  have c: "(0::int) \<le> 0" "(0::int) < int (length (categories ex_self))"
    by (simp_all add: ex_self_def)
  note t = preview_equivalence[OF w s c, of 0 1 1]
  have f: "full_layout (snd (add_height_map ex_heap ex_self [[4, 0], [1, 0]] 0 0 1)) ex_self 1
       = [[[1, 1], [1, 0]], [[1/2, 0], [0, 0]], [[1/2, 0], [1/2, 0]], [[4, 1], [2, 0]],
              [[1/2, 0], [0, 0]], [[1, 0], [0, 0]], [[0, 0], [0, 0]], [[0, 0], [0, 0]],
              [[1/2, 0], [1/2, 0]], [[0, 0], [0, 0]]]"
    by code_simp
  show ?thesis using t w s c unfolding f by blast
qed

text \<open>
  C3 (preview non-mutation). On a well-formed builder, a call of \<^verbatim>\<open>add_and_get_composite\<close>,
  with any arguments, and any sequence of such preview calls, only allocates: every tensor
  that was in the store keeps its contents, among them the eight tensors of the builder
  (the builder's fields themselves are never assigned); the builder stays well formed; and
  \<^verbatim>\<open>get_composite\<close>, with any arguments, returns afterwards the tensor it would have
  returned before.
\<close>
theorem preview_non_mutation:
  assumes "wf h self"
  shows "take (length h) (snd (add_and_get_composite h self to_add category sin_a cos_a k temporary)) = h
       \<and> wf (snd (add_and_get_composite h self to_add category sin_a cos_a k temporary)) self
       \<and> returned (get_composite
             (snd (add_and_get_composite h self to_add category sin_a cos_a k temporary)) self k' ablation)
           = returned (get_composite h self k' ablation)
       \<and> take (length h) (preview_calls h self calls) = h
       \<and> wf (preview_calls h self calls) self
       \<and> returned (get_composite (preview_calls h self calls) self k' ablation)
           = returned (get_composite h self k' ablation)"
proof -
  obtain ys where ys: "snd (add_and_get_composite h self to_add category sin_a cos_a k temporary) = h @ ys"
    using add_and_get_composite_extends[OF assms] by blast
  obtain zs where zs: "preview_calls h self calls = h @ zs"
    using preview_calls_extends[OF assms] by blast
  have w: "wf (h @ ys) self" "wf (h @ zs) self" by (rule wf_append[OF assms])+
  have g: "returned (get_composite (h @ ys) self k' ablation) = returned (get_composite h self k' ablation)"
    "returned (get_composite (h @ zs) self k' ablation) = returned (get_composite h self k' ablation)"
    by (simp_all add: get_composite_returned_any[OF w(1)] get_composite_returned_any[OF w(2)]
        get_composite_returned_any[OF assms] ablation_layout_append[OF assms])
  show ?thesis using w g by (simp add: ys zs)
qed

theorem preview_non_mutation_witness:
  "wf ex_heap ex_self
   \<and> take (length ex_heap)
        (snd (add_and_get_composite ex_heap ex_self [[4, 0], [1, 0]] 0 0 1 1 True)) = ex_heap
   \<and> returned (get_composite
        (snd (add_and_get_composite ex_heap ex_self [[4, 0], [1, 0]] 0 0 1 1 True)) ex_self 1 None)
       = returned (get_composite ex_heap ex_self 1 None)
   \<and> take (length ex_heap)
        (preview_calls ex_heap ex_self [([[4, 0], [1, 0]], 0, 0, 1, 1), ([[0, 5], [0, 0]], 0, 1, 0, 1)])
       = ex_heap
   \<and> returned (get_composite
        (preview_calls ex_heap ex_self [([[4, 0], [1, 0]], 0, 0, 1, 1), ([[0, 5], [0, 0]], 0, 1, 0, 1)])
        ex_self 1 None)
       = returned (get_composite ex_heap ex_self 1 None)"
proof -
  have w: "wf ex_heap ex_self" by code_simp
  show ?thesis
    using preview_non_mutation[OF w, of "[[4, 0], [1, 0]]" 0 0 1 1 True 1 None
        "[([[4, 0], [1, 0]], 0, 0, 1, 1), ([[0, 5], [0, 0]], 0, 1, 0, 1)]"] w
    by blast
qed



text \<open>
  C7 (category accumulation is a sum). On a well-formed builder, a returning
  \<^verbatim>\<open>add_height_map\<close> with category \<open>c\<close> adds \<open>1/2\<close> to layer \<open>c\<close> of \<^verbatim>\<open>cat_map\<close> at every cell
  where \<^verbatim>\<open>to_add\<close> is positive, whatever the heights are, adds nothing at the other cells and
  leaves the other layers alone. Two additions of the same category therefore add up: \<open>1\<close>
  where both patches are positive, \<open>1/2\<close> where one of them is.
\<close>
theorem category_accumulation:
  assumes "wf h self" and "i < size_S self" and "j < size_S self"
    and "is_shape (size_S self) (size_S self) p1" and "is_shape (size_S self) (size_S self) p2"
    and "0 \<le> category" and "category < int (length (categories self))"
  shows "snd (add_height_map h self p1 category s1 k1) ! (cat_map self ! nat category) ! i ! j
           = h ! (cat_map self ! nat category) ! i ! j + (if 0 < p1 ! i ! j then 1/2 else 0)
       \<and> (\<forall>d<length (cat_map self). d \<noteq> nat category \<longrightarrow>
             snd (add_height_map h self p1 category s1 k1) ! (cat_map self ! d) ! i ! j
               = h ! (cat_map self ! d) ! i ! j)
       \<and> snd (add_height_map (snd (add_height_map h self p1 category s1 k1)) self p2 category s2 k2)
             ! (cat_map self ! nat category) ! i ! j
           = h ! (cat_map self ! nat category) ! i ! j
               + (if 0 < p1 ! i ! j then 1/2 else 0) + (if 0 < p2 ! i ! j then 1/2 else 0)
       \<and> (0 < p1 ! i ! j \<and> 0 < p2 ! i ! j \<longrightarrow>
            snd (add_height_map (snd (add_height_map h self p1 category s1 k1)) self p2 category s2 k2)
              ! (cat_map self ! nat category) ! i ! j
            = h ! (cat_map self ! nat category) ! i ! j + 1)"
proof -
  note ij = assms(2,3)
  have c: "py_index (length (cat_map self)) category = Some (nat category)"
    by (rule py_index_category[OF assms(1,6,7)])
  have cl: "nat category < length (cat_map self)" by (rule py_index_Some[OF c])
  define ha where "ha = snd (add_height_map h self p1 category s1 k1)"
  have wa: "wf ha self" unfolding ha_def by (rule add_height_map_wf[OF assms(1)])
  have one: "ha ! (cat_map self ! nat category) ! i ! j
           = h ! (cat_map self ! nat category) ! i ! j + (if 0 < p1 ! i ! j then 1/2 else 0)"
    unfolding ha_def using add_height_map_cat[OF assms(1) ij assms(4) c cl, of s1 k1] by simp
  have others: "\<forall>d<length (cat_map self). d \<noteq> nat category \<longrightarrow>
             ha ! (cat_map self ! d) ! i ! j = h ! (cat_map self ! d) ! i ! j"
    unfolding ha_def using add_height_map_cat[OF assms(1) ij assms(4) c, of _ s1 k1] by simp
  have two: "snd (add_height_map ha self p2 category s2 k2) ! (cat_map self ! nat category) ! i ! j
           = h ! (cat_map self ! nat category) ! i ! j
               + (if 0 < p1 ! i ! j then 1/2 else 0) + (if 0 < p2 ! i ! j then 1/2 else 0)"
    using add_height_map_cat[OF wa ij assms(5) c cl, of s2 k2] one by simp
  have both: "0 < p1 ! i ! j \<and> 0 < p2 ! i ! j \<longrightarrow>
            snd (add_height_map ha self p2 category s2 k2) ! (cat_map self ! nat category) ! i ! j
            = h ! (cat_map self ! nat category) ! i ! j + 1"
    using two by simp
  show ?thesis
    using one others two both unfolding ha_def by blast
qed

theorem category_accumulation_witness:
  "wf ex_heap ex_self \<and> (1::nat) < size_S ex_self \<and> (0::nat) < size_S ex_self
   \<and> is_shape (size_S ex_self) (size_S ex_self) [[4, 0], [1, 0]]
   \<and> (0::int) \<le> 0 \<and> (0::int) < int (length (categories ex_self))
   \<and> ([[4, 0], [1, 0]] :: grid) ! 1 ! 0 < ex_heap ! height_map ex_self ! 1 ! 0
   \<and> 0 < ([[4, 0], [1, 0]] :: grid) ! 1 ! 0
   \<and> ex_heap ! (cat_map ex_self ! nat 0) ! 1 ! 0 = 0
   \<and> snd (add_height_map ex_heap ex_self [[4, 0], [1, 0]] 0 0 1)
         ! (cat_map ex_self ! nat 0) ! 1 ! 0 = 1/2
   \<and> snd (add_height_map (snd (add_height_map ex_heap ex_self [[4, 0], [1, 0]] 0 0 1))
          ex_self [[4, 0], [1, 0]] 0 1 0) ! (cat_map ex_self ! nat 0) ! 1 ! 0 = 1"
proof -
  have w: "wf ex_heap ex_self" by code_simp
  have i: "(1::nat) < size_S ex_self" and j: "(0::nat) < size_S ex_self"
    by (simp_all add: ex_self_def)
  have s: "is_shape (size_S ex_self) (size_S ex_self) [[4, 0], [1, 0]]" by code_simp
  have c: "(0::int) \<le> 0" "(0::int) < int (length (categories ex_self))"
    by (simp_all add: ex_self_def)
  have lower: "([[4, 0], [1, 0]] :: grid) ! 1 ! 0 < ex_heap ! height_map ex_self ! 1 ! 0"
    by (simp add: ex_heap_def ex_self_def)
  have pos: "0 < ([[4, 0], [1, 0]] :: grid) ! 1 ! 0" by simp
  have old: "ex_heap ! (cat_map ex_self ! nat 0) ! 1 ! 0 = 0"
    by (simp add: ex_heap_def ex_self_def)
  note t = category_accumulation[OF w i j s s c, of 0 1 1 0]
  from t have one: "snd (add_height_map ex_heap ex_self [[4, 0], [1, 0]] 0 0 1)
         ! (cat_map ex_self ! nat 0) ! 1 ! 0 = 1/2"
    using old pos by simp
  from t pos have two: "snd (add_height_map (snd (add_height_map ex_heap ex_self [[4, 0], [1, 0]] 0 0 1))
          ex_self [[4, 0], [1, 0]] 0 1 0) ! (cat_map ex_self ! nat 0) ! 1 ! 0 = 1"
    using old by simp
  show ?thesis using w i j s c lower pos old one two by blast
qed

text \<open>
  C10 (equal heights keep the incumbent). On a well-formed builder, at a cell where \<^verbatim>\<open>to_add\<close>
  equals the current height, a returning \<^verbatim>\<open>add_height_map\<close> leaves \<^verbatim>\<open>height_map\<close>, \<^verbatim>\<open>sin_map\<close>
  and \<^verbatim>\<open>cos_map\<close> as they were, and still adds \<open>1/2\<close> to the category layer if the value is
  positive; the tensor \<^verbatim>\<open>add_and_get_composite\<close> returns shows the same at that cell in
  channels 3, 4, 5 and \<open>8 + category\<close>.
\<close>
theorem equal_height_keeps_incumbent:
  assumes "wf h self" and "i < size_S self" and "j < size_S self"
    and "is_shape (size_S self) (size_S self) to_add"
    and "0 \<le> category" and "category < int (length (categories self))"
    and "to_add ! i ! j = h ! height_map self ! i ! j"
  shows "fst (add_height_map h self to_add category sin_a cos_a) = Inr ()
       \<and> snd (add_height_map h self to_add category sin_a cos_a) ! height_map self ! i ! j
           = h ! height_map self ! i ! j
       \<and> snd (add_height_map h self to_add category sin_a cos_a) ! sin_map self ! i ! j
           = h ! sin_map self ! i ! j
       \<and> snd (add_height_map h self to_add category sin_a cos_a) ! cos_map self ! i ! j
           = h ! cos_map self ! i ! j
       \<and> snd (add_height_map h self to_add category sin_a cos_a) ! (cat_map self ! nat category) ! i ! j
           = h ! (cat_map self ! nat category) ! i ! j + (if 0 < to_add ! i ! j then 1/2 else 0)
       \<and> (\<exists>t. returned (add_and_get_composite h self to_add category sin_a cos_a k True) = Inr t
              \<and> t ! 3 ! i ! j = h ! height_map self ! i ! j
              \<and> t ! 4 ! i ! j = h ! sin_map self ! i ! j
              \<and> t ! 5 ! i ! j = h ! cos_map self ! i ! j
              \<and> t ! (8 + nat category) ! i ! j
                  = h ! (cat_map self ! nat category) ! i ! j
                      + (if 0 < to_add ! i ! j then 1/2 else 0))"
proof -
  note ij = assms(2,3)
  have c: "py_index (length (cat_map self)) category = Some (nat category)"
    by (rule py_index_category[OF assms(1,5,6)])
  have cl: "nat category < length (cat_map self)" by (rule py_index_Some[OF c])
  define h1 where "h1 = snd (add_height_map h self to_add category sin_a cos_a)"
  have w1: "wf h1 self" unfolding h1_def by (rule add_height_map_wf[OF assms(1)])
  have ok: "fst (add_height_map h self to_add category sin_a cos_a) = Inr ()"
    by (simp add: add_height_map_ok[OF assms(1,4) c])
  have hm: "h1 ! height_map self ! i ! j = h ! height_map self ! i ! j"
    unfolding h1_def using add_height_map_height[OF assms(1) ij, of to_add category sin_a cos_a] assms(7)
    by simp
  have sn: "h1 ! sin_map self ! i ! j = h ! sin_map self ! i ! j"
    and cs: "h1 ! cos_map self ! i ! j = h ! cos_map self ! i ! j"
    unfolding h1_def using add_height_map_orient[OF assms(1) ij assms(4) c, of sin_a cos_a] assms(7)
    by simp_all
  have ct: "h1 ! (cat_map self ! nat category) ! i ! j
           = h ! (cat_map self ! nat category) ! i ! j + (if 0 < to_add ! i ! j then 1/2 else 0)"
    unfolding h1_def using add_height_map_cat[OF assms(1) ij assms(4) c cl, of sin_a cos_a] by simp
  have pv: "returned (add_and_get_composite h self to_add category sin_a cos_a k True)
      = Inr (full_layout h1 self k)"
    unfolding h1_def by (rule preview_returned[OF assms(1,4,5,6)])
  have ch: "full_layout h1 self k ! 3 = h1 ! height_map self"
    "full_layout h1 self k ! 4 = h1 ! sin_map self"
    "full_layout h1 self k ! 5 = h1 ! cos_map self"
    "full_layout h1 self k ! (8 + nat category) = h1 ! (cat_map self ! nat category)"
    by (simp_all add: full_layout_first full_layout_cat[OF w1 cl])
  have "\<exists>t. returned (add_and_get_composite h self to_add category sin_a cos_a k True) = Inr t
              \<and> t ! 3 ! i ! j = h ! height_map self ! i ! j
              \<and> t ! 4 ! i ! j = h ! sin_map self ! i ! j
              \<and> t ! 5 ! i ! j = h ! cos_map self ! i ! j
              \<and> t ! (8 + nat category) ! i ! j
                  = h ! (cat_map self ! nat category) ! i ! j
                      + (if 0 < to_add ! i ! j then 1/2 else 0)"
    using pv ch hm sn cs ct by simp
  then show ?thesis
    using ok hm sn cs ct unfolding h1_def by blast
qed

theorem equal_height_keeps_incumbent_witness:
  "wf ex_heap ex_self \<and> (0::nat) < size_S ex_self \<and> (1::nat) < size_S ex_self
   \<and> is_shape (size_S ex_self) (size_S ex_self) [[0, 1], [0, 0]]
   \<and> (0::int) \<le> 0 \<and> (0::int) < int (length (categories ex_self))
   \<and> ([[0, 1], [0, 0]] :: grid) ! 0 ! 1 = ex_heap ! height_map ex_self ! 0 ! 1
   \<and> snd (add_height_map ex_heap ex_self [[0, 1], [0, 0]] 0 1 0) ! height_map ex_self ! 0 ! 1 = 1
   \<and> snd (add_height_map ex_heap ex_self [[0, 1], [0, 0]] 0 1 0) ! sin_map ex_self ! 0 ! 1 = 0
   \<and> snd (add_height_map ex_heap ex_self [[0, 1], [0, 0]] 0 1 0) ! cos_map ex_self ! 0 ! 1 = 0
   \<and> snd (add_height_map ex_heap ex_self [[0, 1], [0, 0]] 0 1 0)
        ! (cat_map ex_self ! nat 0) ! 0 ! 1 = 1/2"
proof -
  have w: "wf ex_heap ex_self" by code_simp
  have i: "(0::nat) < size_S ex_self" and j: "(1::nat) < size_S ex_self"
    by (simp_all add: ex_self_def)
  have s: "is_shape (size_S ex_self) (size_S ex_self) [[0, 1], [0, 0]]" by code_simp
  have c: "(0::int) \<le> 0" "(0::int) < int (length (categories ex_self))"
    by (simp_all add: ex_self_def)
  have tie: "([[0, 1], [0, 0]] :: grid) ! 0 ! 1 = ex_heap ! height_map ex_self ! 0 ! 1"
    by (simp add: ex_heap_def ex_self_def)
  have old: "ex_heap ! height_map ex_self ! 0 ! 1 = 1" "ex_heap ! sin_map ex_self ! 0 ! 1 = 0"
    "ex_heap ! cos_map ex_self ! 0 ! 1 = 0" "ex_heap ! (cat_map ex_self ! nat 0) ! 0 ! 1 = 0"
    "0 < ([[0, 1], [0, 0]] :: grid) ! 0 ! 1"
    by (simp_all add: ex_heap_def ex_self_def)
  note t = equal_height_keeps_incumbent[OF w i j s c tie, of 1 0 1]
  have r: "snd (add_height_map ex_heap ex_self [[0, 1], [0, 0]] 0 1 0) ! height_map ex_self ! 0 ! 1 = 1"
    "snd (add_height_map ex_heap ex_self [[0, 1], [0, 0]] 0 1 0) ! sin_map ex_self ! 0 ! 1 = 0"
    "snd (add_height_map ex_heap ex_self [[0, 1], [0, 0]] 0 1 0) ! cos_map ex_self ! 0 ! 1 = 0"
    "snd (add_height_map ex_heap ex_self [[0, 1], [0, 0]] 0 1 0)
        ! (cat_map ex_self ! nat 0) ! 0 ! 1 = 1/2"
    using t old by simp_all
  show ?thesis using w i j s c tie r by blast
qed

text \<open>
  C9 (patch overflow), as the code has it. A record whose patch has at least two rows (or
  columns) and whose offset plus size exceeds the \<open>S\<times>S\<close> buffer on that axis makes
  \<^verbatim>\<open>add_node\<close> raise torch's \<^verbatim>\<open>RuntimeError\<close> (the spec's \<^verbatim>\<open>CorruptData\<close>) with the store
  unchanged, and makes \<^verbatim>\<open>__init__\<close> raise it when it is among the door and window
  records. A patch of one row (or column) whose offset is \<open>S\<close> or more is not covered: torch
  broadcasts it into the empty slice and the placement goes on without error.
\<close>
theorem patch_overflow_raises:
  "(overflows (size_S self) (n_height_map node) (n_bbox_min node) \<longrightarrow>
      add_node h self node = (Inl RuntimeError, h))
   \<and> ((\<exists>d\<in>set door_window_nodes. overflows (nrows floor_g) (n_height_map d) (n_bbox_min d)) \<longrightarrow>
      fst (RenderedComposite_init h0 cats floor_g wall door_window_nodes) = Inl RuntimeError)"
proof -
  obtain h' self' where
    eq: "RenderedComposite_init h0 cats floor_g wall door_window_nodes
           = init_door_windows h' self' door_window_nodes"
    and S: "size_S self' = nrows floor_g"
    using RenderedComposite_init_loop by blast
  have "(\<exists>d\<in>set door_window_nodes. overflows (nrows floor_g) (n_height_map d) (n_bbox_min d)) \<longrightarrow>
      fst (RenderedComposite_init h0 cats floor_g wall door_window_nodes) = Inl RuntimeError"
    using init_door_windows_overflow[of door_window_nodes self' h'] S by (simp only: eq) simp
  then show ?thesis using add_node_overflow by blast
qed

theorem patch_overflow_raises_witness:
  "overflows (size_S ex_self) (n_height_map ex_out) (n_bbox_min ex_out)
   \<and> size_S ex_self
        < clamp_offset (nrows (n_height_map ex_out)) (fst (n_bbox_min ex_out))
            + nrows (n_height_map ex_out)
   \<and> add_node ex_heap ex_self ex_out = (Inl RuntimeError, ex_heap)
   \<and> (\<exists>d\<in>set [ex_door]. overflows (nrows [[1, 1], [2, 0 :: real]]) (n_height_map d) (n_bbox_min d))
   \<and> fst (RenderedComposite_init [] [''chair''] [[1, 1], [2, 0]] [[3, 0], [0, 0]] [ex_door])
       = Inl RuntimeError"
proof -
  have o: "overflows (size_S ex_self) (n_height_map ex_out) (n_bbox_min ex_out)" by code_simp
  have x: "size_S ex_self
        < clamp_offset (nrows (n_height_map ex_out)) (fst (n_bbox_min ex_out))
            + nrows (n_height_map ex_out)"
    by code_simp
  have d: "\<exists>d\<in>set [ex_door]. overflows (nrows [[1, 1], [2, 0 :: real]]) (n_height_map d) (n_bbox_min d)"
    by code_simp
  note t = patch_overflow_raises[where self = ex_self and node = ex_out and h = ex_heap
      and door_window_nodes = "[ex_door]" and floor_g = "[[1, 1], [2, 0]]" and ?h0.0 = "[]"
      and cats = "[''chair'']" and wall = "[[3, 0], [0, 0]]"]
  show ?thesis using t o x d by blast
qed

theorem one_row_patch_beyond_buffer_counterexample:
  "size_S ex_self
     < clamp_offset (nrows (n_height_map ex_edge)) (fst (n_bbox_min ex_edge))
         + nrows (n_height_map ex_edge)
   \<and> add_node ex_heap ex_self ex_edge = (Inr (), ex_heap)"
proof -
  have x: "size_S ex_self
     < clamp_offset (nrows (n_height_map ex_edge)) (fst (n_bbox_min ex_edge))
         + nrows (n_height_map ex_edge)"
    by code_simp
  have S: "size_S ex_self = 2" by (simp add: ex_self_def)
  have p: "node_to_add 2 ex_edge = Inr [[0, 0], [0, 0]]" by code_simp
  have t: "get_transformation (n_transform ex_edge) = Inr (0, 1)"
    by (simp add: get_transformation_def ex_edge_def)
  have c: "n_category ex_edge = 0" by (simp add: ex_edge_def)
  have a: "add_node ex_heap ex_self ex_edge = (Inr (), ex_heap)"
    unfolding add_node_unfold S p t c by code_simp
  show ?thesis using x a by blast
qed

text \<open>
  C6 (256-sentinel override). \<^verbatim>\<open>add_node\<close> and the constructor place a patch of 256 rows (or
  columns) at offset 0 on that axis whatever the bounding box says; \<^verbatim>\<open>add_node_obb\<close> does
  not have the override. For the wardrobe record in the \<open>256\<times>256\<close> room, whose two patches
  and bounding boxes are the same, \<^verbatim>\<open>add_node\<close> pastes at row offset 0 and returns, while
  \<^verbatim>\<open>add_node_obb\<close> takes the row offset \<open>3\<close> from the bounding box, the slice is clipped to 253
  rows, and the assignment of line 253 raises with the store unchanged.
\<close>
theorem obb_lacks_sentinel:
  "nrows (n_height_map ex_wide) = 256 \<and> n_height_map_obb ex_wide = n_height_map ex_wide
   \<and> n_bbox_min_obb ex_wide = n_bbox_min ex_wide
   \<and> node_to_add (size_S ex_big_self) ex_wide
       = paste 256 (zeros 256 256) 0 256 0 1 (n_height_map ex_wide)
   \<and> fst (add_node ex_big_heap ex_big_self ex_wide) = Inr ()
   \<and> nat (max 0 \<lfloor>fst (n_bbox_min_obb ex_wide)\<rfloor>) = 3
   \<and> add_node_obb ex_big_heap ex_big_self ex_wide = (Inl RuntimeError, ex_big_heap)"
proof -
  have S: "size_S ex_big_self = 256" by (simp add: ex_big_self_def)
  have r: "nrows (n_height_map ex_wide) = 256" "nrows (n_height_map_obb ex_wide) = 256"
    by (simp_all add: ex_wide_def)
  have c: "ncols (n_height_map ex_wide) = 1" "ncols (n_height_map_obb ex_wide) = 1"
    by (simp_all add: ex_wide_def ncols_replicate)
  have same: "n_height_map_obb ex_wide = n_height_map ex_wide"
    "n_bbox_min_obb ex_wide = n_bbox_min ex_wide"
    by (simp_all add: ex_wide_def)
  have z: "snd (snd (n_bbox_min ex_wide)) = 0" "nat (max 0 \<lfloor>snd (snd (n_bbox_min_obb ex_wide))\<rfloor>) = 0"
    by (simp_all add: ex_wide_def)
  have x: "nat (max 0 \<lfloor>fst (n_bbox_min_obb ex_wide)\<rfloor>) = 3"
    by (simp add: ex_wide_def)
  have p: "node_to_add (size_S ex_big_self) ex_wide
       = paste 256 (zeros 256 256) 0 256 0 1 (n_height_map ex_wide)"
    by (simp add: node_to_add_256_rows[OF r(1)] S c z clamp_offset_def)
  have ok: "paste 256 (zeros 256 256) 0 256 0 1 (n_height_map ex_wide)
       = Inr (tabulate2 256 256 (\<lambda>i j.
                if 0 \<le> i \<and> i < 0 + 256 \<and> 0 \<le> j \<and> j < 0 + 1
                then n_height_map ex_wide ! (i - 0) ! (j - 0) else zeros 256 256 ! i ! j))"
    by (simp add: paste_def slice_len_def r c)
  define to_add where "to_add = tabulate2 256 256 (\<lambda>i j.
                if 0 \<le> i \<and> i < 0 + 256 \<and> 0 \<le> j \<and> j < 0 + (1::nat)
                then n_height_map ex_wide ! (i - 0) ! (j - 0) else zeros 256 256 ! i ! j)"
  have sh: "is_shape (size_S ex_big_self) (size_S ex_big_self) to_add"
    by (simp add: S to_add_def)
  have t: "get_transformation (n_transform ex_wide) = Inr (0, 1)"
    by (simp add: get_transformation_def ex_wide_def)
  have ci: "py_index (length (cat_map ex_big_self)) (n_category ex_wide) = Some 0"
    by (simp add: py_index_def ex_big_self_def ex_wide_def)
  have "add_node ex_big_heap ex_big_self ex_wide
      = add_height_map ex_big_heap ex_big_self to_add (n_category ex_wide) 0 1"
    unfolding add_node_unfold p ok t to_add_def by simp
  then have a: "fst (add_node ex_big_heap ex_big_self ex_wide) = Inr ()"
    by (simp add: add_height_map_ok[OF wf_ex_big sh ci])
  have bad: "paste 256 (zeros 256 256) 3 256 0 1 (n_height_map_obb ex_wide) = Inl RuntimeError"
    by (simp add: paste_def slice_len_def r c)
  have b: "add_node_obb ex_big_heap ex_big_self ex_wide = (Inl RuntimeError, ex_big_heap)"
    unfolding add_node_obb_unfold S r c x z bad by simp
  show ?thesis using r(1) same p a x b by blast
qed

section \<open>Claims about the scene loader\<close>

text \<open>
  C8 (scene-loader determinism). \<^verbatim>\<open>if seed:\<close> is false for the seed \<open>0\<close>, so a load with
  \<^verbatim>\<open>seed=0\<close> does what a load with \<^verbatim>\<open>seed=None\<close> does: the generator is not reseeded and the
  order of the furniture is the one the generator's current state gives. With a generator
  whose shuffle depends on its state, two loads of the same room with \<^verbatim>\<open>seed=0\<close>, the
  second starting where the first left the generator, give different orders, while two such
  loads with \<^verbatim>\<open>seed=7\<close> give the same order.
\<close>
theorem seed_zero_not_applied:
  "RenderedScene_init random_seed random_shuffle get_final_category cat_to_index rng nodes
       shuffle load_objects (Some 0)
     = RenderedScene_init random_seed random_shuffle get_final_category cat_to_index rng nodes
         shuffle load_objects None
   \<and> map (map n_modelId \<circ> fst)
        [projr (fst (RenderedScene_init ex_seed ex_shuffle ex_final_category ex_cat_to_index
                       3 ex_raw True True (Some 0))),
         projr (fst (RenderedScene_init ex_seed ex_shuffle ex_final_category ex_cat_to_index
                       (snd (RenderedScene_init ex_seed ex_shuffle ex_final_category
                               ex_cat_to_index 3 ex_raw True True (Some 0)))
                       ex_raw True True (Some 0)))]
       = [[''m_table'', ''m_chair''], [''m_chair'', ''m_table'']]
   \<and> map (map n_modelId \<circ> fst)
        [projr (fst (RenderedScene_init ex_seed ex_shuffle ex_final_category ex_cat_to_index
                       3 ex_raw True True (Some 7))),
         projr (fst (RenderedScene_init ex_seed ex_shuffle ex_final_category ex_cat_to_index
                       (snd (RenderedScene_init ex_seed ex_shuffle ex_final_category
                               ex_cat_to_index 3 ex_raw True True (Some 7)))
                       ex_raw True True (Some 7)))]
       = [[''m_table'', ''m_chair''], [''m_table'', ''m_chair'']]"
proof -
  have z: "RenderedScene_init random_seed random_shuffle get_final_category cat_to_index rng nodes
       shuffle load_objects (Some 0)
     = RenderedScene_init random_seed random_shuffle get_final_category cat_to_index rng nodes
         shuffle load_objects None"
    by (simp add: RenderedScene_init_def)
  have l: "load_nodes ex_final_category ex_cat_to_index True ex_raw [] []
      = Inr ([set_category (ex_raw ! 0) 0, set_category (ex_raw ! 2) 1],
             [set_category (ex_raw ! 1) ''door''])"
    by (simp add: ex_raw_def ex_final_category_def ex_cat_to_index_def Let_def)
  have ids: "n_modelId (set_category (ex_raw ! 0) (0::int)) = ''m_chair''"
    "n_modelId (set_category (ex_raw ! 2) (1::int)) = ''m_table''"
    by (simp_all add: ex_raw_def set_category_def)
  have r: "rotate 3 [set_category (ex_raw ! 0) (0::int), set_category (ex_raw ! 2) 1]
        = [set_category (ex_raw ! 2) 1, set_category (ex_raw ! 0) 0]"
    "rotate 4 [set_category (ex_raw ! 0) (0::int), set_category (ex_raw ! 2) 1]
        = [set_category (ex_raw ! 0) 0, set_category (ex_raw ! 2) 1]"
    "rotate 7 [set_category (ex_raw ! 0) (0::int), set_category (ex_raw ! 2) 1]
        = [set_category (ex_raw ! 2) 1, set_category (ex_raw ! 0) 0]"
    by (simp_all add: rotate_def rotate1_def eval_nat_numeral)
  have a: "RenderedScene_init ex_seed ex_shuffle ex_final_category ex_cat_to_index
             3 ex_raw True True (Some 0)
      = (Inr ([set_category (ex_raw ! 2) 1, set_category (ex_raw ! 0) 0],
              [set_category (ex_raw ! 1) ''door'']), 4)"
    by (simp add: RenderedScene_init_def l ex_shuffle_def r)
  have b: "RenderedScene_init ex_seed ex_shuffle ex_final_category ex_cat_to_index
             4 ex_raw True True (Some 0)
      = (Inr ([set_category (ex_raw ! 0) 0, set_category (ex_raw ! 2) 1],
              [set_category (ex_raw ! 1) ''door'']), 5)"
    by (simp add: RenderedScene_init_def l ex_shuffle_def r)
  have c: "RenderedScene_init ex_seed ex_shuffle ex_final_category ex_cat_to_index
             g ex_raw True True (Some 7)
      = (Inr ([set_category (ex_raw ! 2) 1, set_category (ex_raw ! 0) 0],
              [set_category (ex_raw ! 1) ''door'']), 8)" for g
    by (simp add: RenderedScene_init_def l ex_shuffle_def ex_seed_def r)
  show ?thesis
    by (simp add: a b c ids z)
qed

end
